theory Spec2Isabelle
  imports Complex_Main
begin

section \<open>Python strings\<close>

text \<open>
  A Python \<open>str\<close> is modelled as a \<^typ>\<open>string\<close> holding its UTF-8 bytes. The
  character classes of the source (\<open>\d\<close>, \<open>\b\<close>, \<open>lower\<close>, \<open>title\<close>,
  \<open>strip\<close>) are modelled on the ASCII range; bytes of a non-ASCII code point are
  neither digits, letters nor white space here. The currency sign U+20A6 of the
  source's patterns is the three bytes of \<open>naira\<close>.
\<close>

definition naira :: string where
  "naira = [CHR 0xE2, CHR 0x82, CHR 0xA6]"

definition upper_chars :: string where
  "upper_chars = ''ABCDEFGHIJKLMNOPQRSTUVWXYZ''"

definition lower_chars :: string where
  "lower_chars = ''abcdefghijklmnopqrstuvwxyz''"

definition digit_chars :: string where
  "digit_chars = ''0123456789''"

definition is_upper :: "char \<Rightarrow> bool" where
  "is_upper c \<longleftrightarrow> c \<in> set upper_chars"

definition is_lower :: "char \<Rightarrow> bool" where
  "is_lower c \<longleftrightarrow> c \<in> set lower_chars"

definition is_digit :: "char \<Rightarrow> bool" where
  "is_digit c \<longleftrightarrow> c \<in> set digit_chars"

definition is_alpha :: "char \<Rightarrow> bool" where
  "is_alpha c \<longleftrightarrow> is_upper c \<or> is_lower c"

text \<open>\<open>\w\<close> of the \<open>re\<close> module: a letter, a digit or the underscore.\<close>

definition is_word :: "char \<Rightarrow> bool" where
  "is_word c \<longleftrightarrow> is_alpha c \<or> is_digit c \<or> c = CHR ''_''"

text \<open>White space as \<open>str.strip()\<close> sees it: tab, line feed, vertical tab, form feed,
  carriage return, the four separators 0x1C to 0x1F and the space.\<close>

definition is_space :: "char \<Rightarrow> bool" where
  "is_space c \<longleftrightarrow>
     c \<in> set [CHR 0x09, CHR 0x0A, CHR 0x0B, CHR 0x0C, CHR 0x0D,
               CHR 0x1C, CHR 0x1D, CHR 0x1E, CHR 0x1F, CHR '' '']"

definition lower_char :: "char \<Rightarrow> char" where
  "lower_char c = (case map_of (zip upper_chars lower_chars) c of Some l \<Rightarrow> l | None \<Rightarrow> c)"

definition upper_char :: "char \<Rightarrow> char" where
  "upper_char c = (case map_of (zip lower_chars upper_chars) c of Some u \<Rightarrow> u | None \<Rightarrow> c)"

text \<open>\<open>s.lower()\<close>\<close>

definition py_lower :: "string \<Rightarrow> string" where
  "py_lower s = map lower_char s"

text \<open>\<open>s.replace(a, b)\<close> for one-character \<open>a\<close> and \<open>b\<close>, and \<open>s.replace(a, '')\<close>.\<close>

definition replace_char :: "char \<Rightarrow> char \<Rightarrow> string \<Rightarrow> string" where
  "replace_char a b s = map (\<lambda>c. if c = a then b else c) s"

definition remove_char :: "char \<Rightarrow> string \<Rightarrow> string" where
  "remove_char a s = filter (\<lambda>c. c \<noteq> a) s"

text \<open>\<open>s.strip()\<close>\<close>

definition py_strip :: "string \<Rightarrow> string" where
  "py_strip s = rev (dropWhile is_space (rev (dropWhile is_space s)))"

text \<open>\<open>s.title()\<close>: a letter that follows a letter is lowered, any other letter is
  raised; the flag says whether the previous character was a letter.\<close>

fun title_from :: "bool \<Rightarrow> string \<Rightarrow> string" where
  "title_from prev [] = []"
| "title_from prev (c # cs) =
     (if prev then lower_char c else upper_char c) # title_from (is_alpha c) cs"

definition py_title :: "string \<Rightarrow> string" where
  "py_title s = title_from False s"

text \<open>\<open>sub in s\<close>\<close>

fun starts_with :: "string \<Rightarrow> string \<Rightarrow> bool" where
  "starts_with [] s = True"
| "starts_with (p # ps) [] = False"
| "starts_with (p # ps) (c # cs) = (p = c \<and> starts_with ps cs)"

fun contains :: "string \<Rightarrow> string \<Rightarrow> bool" where
  "contains sub [] = (sub = [])"
| "contains sub (c # cs) = (starts_with sub (c # cs) \<or> contains sub cs)"

text \<open>\<open>s.split(sep)\<close> for a one-character separator: the pieces between the
  separators, never an empty list.\<close>

fun py_split :: "char \<Rightarrow> string \<Rightarrow> string list" where
  "py_split sep [] = [[]]"
| "py_split sep (c # cs) =
     (if c = sep then [] # py_split sep cs
      else (case py_split sep cs of
              [] \<Rightarrow> [[c]]
            | w # ws \<Rightarrow> (c # w) # ws))"


text \<open>What follows the last \<open>sep\<close> of a string (all of it when it has none), and what
  precedes the first.\<close>

definition after_last :: "char \<Rightarrow> string \<Rightarrow> string" where
  "after_last sep s = rev (takeWhile (\<lambda>c. c \<noteq> sep) (rev s))"

definition before_first :: "char \<Rightarrow> string \<Rightarrow> string" where
  "before_first sep s = takeWhile (\<lambda>c. c \<noteq> sep) s"


section \<open>The category label of a file\<close>

text \<open>\<open>os.path.basename(file_path)\<close> on a POSIX path: what follows the last slash.\<close>

definition basename :: "string \<Rightarrow> string" where
  "basename p = last (py_split CHR ''/'' p)"

text \<open>The first statement of \<open>process_file\<close>:
  \<open>os.path.basename(file_path).split('_')[-1].split('.')[0]\<close>.\<close>

definition category_name :: "string \<Rightarrow> string" where
  "category_name file_path =
     hd (py_split CHR ''.'' (last (py_split CHR ''_'' (basename file_path))))"

text \<open>The label as the specification words it: what follows the last underscore of the
  base name, without the extension, the extension being what \<open>os.path.splitext\<close>
  splits off (from the last dot on).\<close>

definition drop_extension :: "string \<Rightarrow> string" where
  "drop_extension s =
     (if CHR ''.'' \<in> set s then rev (drop 1 (dropWhile (\<lambda>c. c \<noteq> CHR ''.'') (rev s)))
      else s)"

definition spec_category_name :: "string \<Rightarrow> string" where
  "spec_category_name file_path =
     last (py_split CHR ''_'' (drop_extension (basename file_path)))"

section \<open>Tables\<close>

text \<open>
  A pandas \<open>DataFrame\<close> as the pipeline sees it: a header of labelled, typed columns
  and the rows below it. A cell is missing (\<open>NaN\<close>), a number or a text. Numbers are
  rationals: the binary rounding of \<open>float64\<close> is not modelled. A column is numeric
  (\<open>int64\<close>, \<open>float64\<close>) or of dtype \<open>object\<close>, the dtypes \<open>read_csv\<close> gives
  apart from \<open>bool\<close>; a boolean column has no missing cell and goes through the
  pipeline as a numeric column of 0 and 1 would. Columns of other dtypes (dates,
  categoricals) are outside the model. Column labels are meant to be distinct, as
  \<open>read_csv\<close> makes them; where a renaming would give two columns one label, the model
  stops with \<open>Unmodelled\<close>.
\<close>

datatype cell = Null | Num rat | Str string

datatype dtype = Numeric | Object

text \<open>The exceptions the pipeline can raise, and \<open>Unmodelled\<close> for the behaviour of
  pandas that the model does not define.\<close>

datatype error = AttributeError | TypeError | ValueError | KeyError | Unmodelled

record table =
  header :: "(string \<times> dtype) list"
  rows :: "cell list list"

definition columns :: "table \<Rightarrow> string list" where
  "columns df = map fst (header df)"

fun col_index :: "string \<Rightarrow> string list \<Rightarrow> nat option" where
  "col_index n [] = None"
| "col_index n (c # cs) = (if c = n then Some 0 else map_option Suc (col_index n cs))"

definition dtype_of :: "string \<Rightarrow> table \<Rightarrow> dtype option" where
  "dtype_of n df = map_of (header df) n"

text \<open>The cell of a row in a column; a row that ends before the column is missing there,
  as \<open>read_csv\<close> pads it.\<close>

definition cell_at :: "nat \<Rightarrow> cell list \<Rightarrow> cell" where
  "cell_at i r = (if i < length r then r ! i else Null)"

text \<open>The cells of the column labelled \<open>n\<close>, top to bottom.\<close>

definition column_cells :: "string \<Rightarrow> table \<Rightarrow> cell list option" where
  "column_cells n df =
     (case col_index n (columns df) of
        None \<Rightarrow> None
      | Some i \<Rightarrow> Some (map (cell_at i) (rows df)))"

text \<open>Every row has a cell for every column.\<close>

definition rectangular :: "table \<Rightarrow> bool" where
  "rectangular df \<longleftrightarrow> list_all (\<lambda>r. length r = length (header df)) (rows df)"

definition wf_table :: "table \<Rightarrow> bool" where
  "wf_table df \<longleftrightarrow> distinct (columns df) \<and> rectangular df"

text \<open>The column labelled \<open>n\<close> is the same in two tables: the same cells, the same
  dtype.\<close>

definition same_column :: "string \<Rightarrow> table \<Rightarrow> table \<Rightarrow> bool" where
  "same_column n df df' \<longleftrightarrow>
     column_cells n df' = column_cells n df \<and> dtype_of n df' = dtype_of n df"

text \<open>\<open>df.rename(columns={a: b})\<close>\<close>

definition rename_column :: "string \<Rightarrow> string \<Rightarrow> table \<Rightarrow> table" where
  "rename_column a b df =
     df\<lparr>header := map (\<lambda>(n, d). (if n = a then b else n, d)) (header df)\<rparr>"

text \<open>\<open>df[n] = values\<close>, the value of each row computed from the row: the column is
  replaced where it stands, or added at the right end.\<close>

definition assign_column :: "string \<Rightarrow> dtype \<Rightarrow> (cell list \<Rightarrow> cell) \<Rightarrow> table \<Rightarrow> table" where
  "assign_column n d f df =
     (case col_index n (columns df) of
        Some i \<Rightarrow> \<lparr>header = (header df)[i := (n, d)],
                   rows = map (\<lambda>r. r[i := f r]) (rows df)\<rparr>
      | None \<Rightarrow> \<lparr>header = header df @ [(n, d)],
                 rows = map (\<lambda>r. r @ [f r]) (rows df)\<rparr>)"

fun map_err :: "('a \<Rightarrow> error + 'b) \<Rightarrow> 'a list \<Rightarrow> error + 'b list" where
  "map_err f [] = Inr []"
| "map_err f (x # xs) =
     (case f x of
        Inl e \<Rightarrow> Inl e
      | Inr y \<Rightarrow> (case map_err f xs of Inl e \<Rightarrow> Inl e | Inr ys \<Rightarrow> Inr (y # ys)))"

text \<open>The \<open>.str\<close> accessor of a column: pandas raises \<open>AttributeError\<close> unless the
  column is of dtype object and holds a text or nothing but missing values.\<close>

definition str_accessor_ok :: "dtype \<Rightarrow> cell list \<Rightarrow> bool" where
  "str_accessor_ok d cs \<longleftrightarrow>
     d = Object \<and> (list_all (\<lambda>c. c = Null) cs \<or> list_ex (\<lambda>c. case c of Str s \<Rightarrow> True | _ \<Rightarrow> False) cs)"

text \<open>A \<open>.str\<close> method on one cell: a cell that is not a text gives a missing value.\<close>

definition str_map :: "(string \<Rightarrow> cell) \<Rightarrow> cell \<Rightarrow> cell" where
  "str_map f c = (case c of Str s \<Rightarrow> f s | _ \<Rightarrow> Null)"


section \<open>Column normalizer\<close>

text \<open>\<open>df.columns = [col.lower().replace(' ', '_') for col in df.columns]\<close>\<close>

definition standardize_name :: "string \<Rightarrow> string" where
  "standardize_name col = replace_char CHR '' '' CHR ''_'' (py_lower col)"

definition standardize_column_names :: "table \<Rightarrow> table" where
  "standardize_column_names df =
     df\<lparr>header := map (\<lambda>(n, d). (standardize_name n, d)) (header df)\<rparr>"


section \<open>Price cleaner\<close>

text \<open>The value of a decimal digit.\<close>

definition digit_val :: "char \<Rightarrow> int" where
  "digit_val c =
     (case map_of (zip digit_chars [0, 1, 2, 3, 4, 5, 6, 7, 8, 9]) c of
        Some v \<Rightarrow> v
      | None \<Rightarrow> 0)"

definition digits_val :: "string \<Rightarrow> int" where
  "digits_val s = foldl (\<lambda>a c. 10 * a + digit_val c) 0 s"

text \<open>The first match of \<open>(\d+[\d\.,]*)\<close>: from the first digit on, the longest run of
  digits, dots and commas.\<close>

definition extract_number :: "string \<Rightarrow> string option" where
  "extract_number s =
     (case dropWhile (\<lambda>c. \<not> is_digit c) s of
        [] \<Rightarrow> None
      | cs \<Rightarrow> Some (takeWhile (\<lambda>c. is_digit c \<or> c = CHR ''.'' \<or> c = CHR '','') cs))"

text \<open>\<open>float(s)\<close> on what the pattern leaves once the commas are gone, a digit followed
  by digits and dots: a decimal numeral when it has at most one dot, \<open>ValueError\<close>
  otherwise.\<close>

definition float_of_text :: "string \<Rightarrow> error + rat" where
  "float_of_text s =
     (let ip = takeWhile (\<lambda>c. c \<noteq> CHR ''.'') s;
          fp = drop 1 (dropWhile (\<lambda>c. c \<noteq> CHR ''.'') s)
      in if ip \<noteq> [] \<and> list_all is_digit ip \<and> list_all is_digit fp
         then Inr (of_int (digits_val ip) + of_int (digits_val fp) / 10 ^ length fp)
         else Inl ValueError)"

text \<open>One cell of a price column through
  \<open>astype(str).str.extract(r'(\d+[\d\.,]*)')\<close>, \<open>.str.replace(',', '')\<close> and
  \<open>.astype(float)\<close>. A missing cell prints as \<open>nan\<close>, which has no digit. How a
  number held in an object column prints is not modelled.\<close>

definition clean_price_cell :: "cell \<Rightarrow> error + cell" where
  "clean_price_cell c =
     (case c of
        Null \<Rightarrow> Inr Null
      | Num q \<Rightarrow> Inl Unmodelled
      | Str s \<Rightarrow>
          (case extract_number s of
             None \<Rightarrow> Inr Null
           | Some m \<Rightarrow>
               (case float_of_text (remove_char CHR '','' m) of
                  Inl e \<Rightarrow> Inl e
                | Inr q \<Rightarrow> Inr (Num q))))"

text \<open>The body of the loop over the price columns, for the column labelled \<open>col\<close>.\<close>

definition clean_price_column :: "string \<Rightarrow> table \<Rightarrow> error + table" where
  "clean_price_column col df =
     (case col_index col (columns df) of
        None \<Rightarrow> Inr df
      | Some i \<Rightarrow>
          if dtype_of col df = Some Numeric then Inr df
          else
            (case map_err (\<lambda>r. case clean_price_cell (cell_at i r) of
                                   Inl e \<Rightarrow> Inl e
                                 | Inr v \<Rightarrow> Inr (r[i := v])) (rows df) of
               Inl e \<Rightarrow> Inl e
             | Inr rs \<Rightarrow> Inr \<lparr>header = (header df)[i := (col, Numeric)], rows = rs\<rparr>))"

fun clean_price_columns :: "string list \<Rightarrow> table \<Rightarrow> error + table" where
  "clean_price_columns [] df = Inr df"
| "clean_price_columns (col # cols) df =
     (case clean_price_column col df of
        Inl e \<Rightarrow> Inl e
      | Inr df' \<Rightarrow> clean_price_columns cols df')"

definition clean_price_data :: "table \<Rightarrow> error + table" where
  "clean_price_data df =
     (let df1 = (if ''product_price'' \<in> set (columns df)
                 then rename_column ''product_price'' ''price'' df else df);
          price_columns = filter (\<lambda>col. contains ''price'' (py_lower col)) (columns df1)
      in if \<not> distinct (columns df1) then Inl Unmodelled
         else clean_price_columns price_columns df1)"

text \<open>Three relations between a table and a later one, for the column at index \<open>i\<close>:
  the later table has the labels and the row lengths of the first; its column \<open>i\<close> is
  numeric and holds the cleaned cells of the first; its column \<open>i\<close> is the one of the
  first.\<close>

definition same_shape :: "table \<Rightarrow> table \<Rightarrow> bool" where
  "same_shape df df' \<longleftrightarrow>
     columns df' = columns df \<and> length (rows df') = length (rows df)
     \<and> list_all2 (\<lambda>r r'. length r' = length r) (rows df) (rows df')"

definition column_cleaned :: "nat \<Rightarrow> table \<Rightarrow> table \<Rightarrow> bool" where
  "column_cleaned i df df' \<longleftrightarrow>
     snd (header df' ! i) = Numeric
     \<and> list_all2 (\<lambda>r r'. clean_price_cell (cell_at i r) = Inr (cell_at i r')) (rows df) (rows df')"

definition column_unchanged :: "nat \<Rightarrow> table \<Rightarrow> table \<Rightarrow> bool" where
  "column_unchanged i df df' \<longleftrightarrow>
     snd (header df' ! i) = snd (header df ! i)
     \<and> list_all2 (\<lambda>r r'. cell_at i r' = cell_at i r) (rows df) (rows df')"


text \<open>Every column whose label contains \<open>price\<close> is numeric: what the price cleaner
  leaves behind.\<close>

definition prices_numeric :: "table \<Rightarrow> bool" where
  "prices_numeric df \<longleftrightarrow>
     list_all (\<lambda>(n, d). contains ''price'' (py_lower n) \<longrightarrow> d = Numeric) (header df)"


section \<open>Attribute extractor\<close>

text \<open>The \<open>.str\<close> accessor of the column labelled \<open>n\<close>: the index of the column, or the
  exception.\<close>

definition str_accessor :: "string \<Rightarrow> table \<Rightarrow> error + nat" where
  "str_accessor n df =
     (case col_index n (columns df) of
        None \<Rightarrow> Inl KeyError
      | Some i \<Rightarrow>
          (case dtype_of n df of
             None \<Rightarrow> Inl KeyError
           | Some d \<Rightarrow>
               if str_accessor_ok d (map (cell_at i) (rows df)) then Inr i
               else Inl AttributeError))"

text \<open>The pattern \<open>\b(XS|S|M|L|XL|XXL|XXXL|[0-9]+)\b\<close>. \<open>\b\<close> holds between two
  positions of which exactly one is a word character; \<open>prev\<close> is the character before
  the position, if any.\<close>

definition size_tokens :: "string list" where
  "size_tokens = [''XS'', ''S'', ''M'', ''L'', ''XL'', ''XXL'', ''XXXL'']"

definition boundary :: "char option \<Rightarrow> string \<Rightarrow> bool" where
  "boundary prev rest \<longleftrightarrow>
     (case prev of None \<Rightarrow> False | Some p \<Rightarrow> is_word p)
       \<noteq> (case rest of [] \<Rightarrow> False | c # cs \<Rightarrow> is_word c)"

definition match_token :: "string \<Rightarrow> string \<Rightarrow> string option" where
  "match_token tok s =
     (if tok \<noteq> [] \<and> starts_with tok s \<and> boundary (Some (last tok)) (drop (length tok) s)
      then Some tok else None)"

text \<open>\<open>[0-9]+\b\<close>: only the whole run of digits can end at a boundary, a shorter one is
  followed by a digit.\<close>

definition match_digits :: "string \<Rightarrow> string option" where
  "match_digits s =
     (let ds = takeWhile is_digit s
      in if ds \<noteq> [] \<and> boundary (Some (last ds)) (drop (length ds) s) then Some ds else None)"

fun first_match :: "string list \<Rightarrow> string \<Rightarrow> string option" where
  "first_match [] s = match_digits s"
| "first_match (tok # toks) s =
     (case match_token tok s of Some m \<Rightarrow> Some m | None \<Rightarrow> first_match toks s)"

fun search_size :: "char option \<Rightarrow> string \<Rightarrow> string option" where
  "search_size prev [] = None"
| "search_size prev (c # cs) =
     (if boundary prev (c # cs)
      then (case first_match size_tokens (c # cs) of
              Some m \<Rightarrow> Some m
            | None \<Rightarrow> search_size (Some c) cs)
      else search_size (Some c) cs)"

definition extract_size_cell :: "cell \<Rightarrow> cell" where
  "extract_size_cell c =
     str_map (\<lambda>s. case search_size None s of None \<Rightarrow> Null | Some m \<Rightarrow> Str m) c"

text \<open>\<open>if 'category' not in df.columns: df['category'] = category_name\<close>\<close>

definition add_category :: "string \<Rightarrow> table \<Rightarrow> table" where
  "add_category category df =
     (if ''category'' \<in> set (columns df) then df
      else assign_column ''category'' Object (\<lambda>r. Str category) df)"

text \<open>The renaming of \<open>product_name\<close>, then \<open>.str.strip()\<close>, then \<open>.str.title()\<close>.\<close>

definition clean_names :: "table \<Rightarrow> error + table" where
  "clean_names df =
     (if ''product_name'' \<in> set (columns df) then
        (let df1 = rename_column ''product_name'' ''name'' df
         in if \<not> distinct (columns df1) then Inl Unmodelled
            else
              (case str_accessor ''name'' df1 of
                 Inl e \<Rightarrow> Inl e
               | Inr i \<Rightarrow>
                   (let df2 = assign_column ''name'' Object
                                (\<lambda>r. str_map (\<lambda>s. Str (py_strip s)) (cell_at i r)) df1
                    in (case str_accessor ''name'' df2 of
                          Inl e \<Rightarrow> Inl e
                        | Inr j \<Rightarrow>
                            Inr (assign_column ''name'' Object
                                   (\<lambda>r. str_map (\<lambda>s. Str (py_title s)) (cell_at j r)) df2)))))
      else Inr df)"

text \<open>\<open>mask = df[a].isnull(); df.loc[mask, a] = df.loc[mask, b]\<close>\<close>

definition fill_from :: "string \<Rightarrow> string \<Rightarrow> table \<Rightarrow> table" where
  "fill_from a b df =
     (case (col_index a (columns df), col_index b (columns df)) of
        (Some k, Some j) \<Rightarrow>
          df\<lparr>rows := map (\<lambda>r. if cell_at k r = Null then r[k := cell_at j r] else r) (rows df)\<rparr>
      | _ \<Rightarrow> df)"

definition extract_size :: "table \<Rightarrow> error + table" where
  "extract_size df =
     (if ''name'' \<in> set (columns df) \<and> ''extracted_size'' \<notin> set (columns df) then
        (case str_accessor ''name'' df of
           Inl e \<Rightarrow> Inl e
         | Inr i \<Rightarrow>
             (let df1 = assign_column ''extracted_size'' Object
                          (\<lambda>r. extract_size_cell (cell_at i r)) df
              in Inr (if ''sizes'' \<in> set (columns df1)
                      then fill_from ''extracted_size'' ''sizes'' df1 else df1)))
      else Inr df)"

text \<open>\<open>df['name'].str.split(' ').str[0]\<close>\<close>

definition extract_brand :: "table \<Rightarrow> error + table" where
  "extract_brand df =
     (if ''name'' \<in> set (columns df) \<and> ''brand'' \<notin> set (columns df) then
        (case str_accessor ''name'' df of
           Inl e \<Rightarrow> Inl e
         | Inr i \<Rightarrow>
             Inr (assign_column ''brand'' Object
                    (\<lambda>r. str_map (\<lambda>s. Str (hd (py_split CHR '' '' s))) (cell_at i r)) df))
      else Inr df)"

definition extract_attributes :: "table \<Rightarrow> string \<Rightarrow> error + table" where
  "extract_attributes df category =
     (case clean_names (add_category category df) of
        Inl e \<Rightarrow> Inl e
      | Inr df1 \<Rightarrow>
          (case extract_size df1 of
             Inl e \<Rightarrow> Inl e
           | Inr df2 \<Rightarrow> extract_brand df2))"


section \<open>Missing values and duplicates\<close>

text \<open>\<open>df[cols] = df[cols].fillna(v)\<close> for the columns \<open>cols\<close> of one dtype.\<close>

definition fillna_row :: "dtype \<Rightarrow> cell \<Rightarrow> (string \<times> dtype) list \<Rightarrow> cell list \<Rightarrow> cell list" where
  "fillna_row d v h r = map2 (\<lambda>(n, d') c. if d' = d \<and> c = Null then v else c) h r"

definition fillna :: "dtype \<Rightarrow> cell \<Rightarrow> table \<Rightarrow> table" where
  "fillna d v df = df\<lparr>rows := map (fillna_row d v (header df)) (rows df)\<rparr>"

text \<open>\<open>df.drop_duplicates()\<close>: a row equal to an earlier one goes, the first stays.\<close>

fun keep_first :: "'a list \<Rightarrow> 'a list \<Rightarrow> 'a list" where
  "keep_first seen [] = []"
| "keep_first seen (x # xs) =
     (if x \<in> set seen then keep_first seen xs else x # keep_first (x # seen) xs)"

definition drop_duplicates :: "table \<Rightarrow> table" where
  "drop_duplicates df = df\<lparr>rows := keep_first [] (rows df)\<rparr>"

definition handle_missing_and_duplicates :: "table \<Rightarrow> table" where
  "handle_missing_and_duplicates df =
     drop_duplicates (fillna Object (Str ''Unknown'') (fillna Numeric (Num 0) df))"


section \<open>Discount feature\<close>

definition old_price_pattern :: string where
  "old_price_pattern = ''old price '' @ naira"

text \<open>The first match of \<open>old price \<close>, the currency sign and \<open>([\d,]+)\<close>: the group.\<close>

fun search_old_price :: "string \<Rightarrow> string option" where
  "search_old_price [] = None"
| "search_old_price (c # cs) =
     (let grp = takeWhile (\<lambda>x. is_digit x \<or> x = CHR '','')
                  (drop (length old_price_pattern) (c # cs))
      in if starts_with old_price_pattern (c # cs) \<and> grp \<noteq> [] then Some grp
         else search_old_price cs)"

definition extract_old_price_cell :: "cell \<Rightarrow> cell" where
  "extract_old_price_cell c =
     str_map (\<lambda>s. case search_old_price s of None \<Rightarrow> Null | Some m \<Rightarrow> Str m) c"

text \<open>\<open>pd.to_numeric(..., errors='coerce')\<close> on a cell of the group with its commas
  removed: digits give their number, the empty text a missing value.\<close>

definition to_numeric_cell :: "cell \<Rightarrow> cell" where
  "to_numeric_cell c =
     (case c of
        Str s \<Rightarrow> if s \<noteq> [] \<and> list_all is_digit s then Num (of_int (digits_val s)) else Null
      | Num q \<Rightarrow> Num q
      | Null \<Rightarrow> Null)"

text \<open>\<open>round(2)\<close>: to the nearest hundredth, a tie to the even one.\<close>

definition round_half_even :: "rat \<Rightarrow> int" where
  "round_half_even q =
     (let f = \<lfloor>q\<rfloor>; d = q - of_int f
      in if d < 1 / 2 then f else if 1 / 2 < d then f + 1 else if even f then f else f + 1)"

definition round2 :: "rat \<Rightarrow> rat" where
  "round2 q = of_int (round_half_even (q * 100)) / 100"

definition round2_cell :: "cell \<Rightarrow> cell" where
  "round2_cell c = (case c of Num q \<Rightarrow> Num (round2 q) | _ \<Rightarrow> c)"

text \<open>\<open>(df['old_price'].notnull()) & (df['old_price'] > 0)\<close> on the row, \<open>k\<close> the index of
  \<open>old_price\<close>.\<close>

definition old_price_valid :: "nat \<Rightarrow> cell list \<Rightarrow> bool" where
  "old_price_valid k r = (case cell_at k r of Num q \<Rightarrow> 0 < q | _ \<Rightarrow> False)"

text \<open>\<open>(old_price - price) / old_price * 100\<close> on the row.\<close>

definition discount_value :: "nat \<Rightarrow> nat \<Rightarrow> cell list \<Rightarrow> cell" where
  "discount_value k p r =
     (case (cell_at k r, cell_at p r) of
        (Num old, Num price) \<Rightarrow> Num ((old - price) / old * 100)
      | _ \<Rightarrow> Null)"

text \<open>The statements under \<open>if mask.any()\<close>; the table reached and the exception raised
  there, if any. On a price column of dtype object the subtraction raises \<open>TypeError\<close>
  when a selected price is a text; what it does otherwise, and the assignment into a
  discount column of dtype object, are not modelled.\<close>

definition set_discount :: "nat \<Rightarrow> table \<Rightarrow> table \<times> error option" where
  "set_discount k df =
     (case (col_index ''price'' (columns df), dtype_of ''price'' df) of
        (Some p, Some Numeric) \<Rightarrow>
          (case col_index ''discount_percentage'' (columns df) of
             None \<Rightarrow>
               (let df1 = assign_column ''discount_percentage'' Numeric
                            (\<lambda>r. if old_price_valid k r then discount_value k p r else Null) df
                in (assign_column ''discount_percentage'' Numeric
                      (\<lambda>r. round2_cell (cell_at (length (header df)) r)) df1, None))
           | Some j \<Rightarrow>
               if dtype_of ''discount_percentage'' df = Some Numeric then
                 (df\<lparr>rows := map (\<lambda>r. r[j := round2_cell
                                        (if old_price_valid k r then discount_value k p r
                                         else cell_at j r)]) (rows df)\<rparr>, None)
               else (df, Some Unmodelled))
      | (Some p, Some Object) \<Rightarrow>
          if list_ex (\<lambda>r. old_price_valid k r \<and> (case cell_at p r of Str s \<Rightarrow> True | _ \<Rightarrow> False))
               (rows df)
          then (df, Some TypeError) else (df, Some Unmodelled)
      | _ \<Rightarrow> (df, Some KeyError))"

text \<open>The body of the \<open>try\<close>: the table as the statements left it, and the exception that
  ended it, if any.\<close>

definition discount_body :: "table \<Rightarrow> table \<times> error option" where
  "discount_body df =
     (case str_accessor ''price_info'' df of
        Inl e \<Rightarrow> (df, Some e)
      | Inr i \<Rightarrow>
          (let df1 = assign_column ''old_price'' Object
                       (\<lambda>r. extract_old_price_cell (cell_at i r)) df
           in (case str_accessor ''old_price'' df1 of
                 Inl e \<Rightarrow> (df1, Some e)
               | Inr k \<Rightarrow>
                   (let df2 = assign_column ''old_price'' Numeric
                                (\<lambda>r. to_numeric_cell
                                       (str_map (\<lambda>s. Str (remove_char CHR '','' s)) (cell_at k r)))
                                df1
                    in if list_ex (old_price_valid k) (rows df2) then set_discount k df2
                       else (df2, None)))))"

text \<open>\<open>feature_engineering\<close>: the table returned and the exception the \<open>except\<close> clause
  caught and printed as a warning, if any.\<close>

definition feature_engineering :: "table \<Rightarrow> error + table \<times> error option" where
  "feature_engineering df =
     (if ''price_info'' \<in> set (columns df) \<and> ''price'' \<in> set (columns df) then
        (if \<not> distinct (columns df) then Inl Unmodelled
         else (case discount_body df of
                 (df', Some Unmodelled) \<Rightarrow> Inl Unmodelled
               | (df', caught) \<Rightarrow> Inr (df', caught)))
      else Inr (df, None))"


section \<open>The pipeline of one file\<close>

text \<open>\<open>process_file\<close> on the table \<open>read_csv\<close> gave for \<open>file_path\<close>; the files written
  are not modelled.\<close>

definition process_file :: "string \<Rightarrow> table \<Rightarrow> error + table" where
  "process_file file_path raw =
     (case clean_price_data (standardize_column_names raw) of
        Inl e \<Rightarrow> Inl e
      | Inr df1 \<Rightarrow>
          (case extract_attributes df1 (category_name file_path) of
             Inl e \<Rightarrow> Inl e
           | Inr df2 \<Rightarrow>
               (case feature_engineering (handle_missing_and_duplicates df2) of
                  Inl e \<Rightarrow> Inl e
                | Inr (df3, caught) \<Rightarrow> Inr df3)))"

section \<open>Aggregator and summarizer\<close>

text \<open>\<open>pd.concat([a, b], ignore_index=True)\<close>: the columns of \<open>a\<close>, then those of \<open>b\<close>
  that \<open>a\<close> lacks; a row is missing in the columns its table lacks. A column that is
  numeric in one table and of dtype object in the other is of dtype object.\<close>

definition concat_header :: "(string \<times> dtype) list \<Rightarrow> (string \<times> dtype) list \<Rightarrow> (string \<times> dtype) list" where
  "concat_header h1 h2 =
     map (\<lambda>(n, d). (n, case map_of h2 n of None \<Rightarrow> d | Some d' \<Rightarrow> if d' = d then d else Object)) h1
       @ filter (\<lambda>(n, d). n \<notin> set (map fst h1)) h2"

definition reindex_row :: "string list \<Rightarrow> string list \<Rightarrow> cell list \<Rightarrow> cell list" where
  "reindex_row target source r =
     map (\<lambda>n. case col_index n source of None \<Rightarrow> Null | Some i \<Rightarrow> cell_at i r) target"

definition concat2 :: "table \<Rightarrow> table \<Rightarrow> table" where
  "concat2 a b =
     (let h = concat_header (header a) (header b)
      in \<lparr>header = h,
          rows = map (reindex_row (map fst h) (columns a)) (rows a)
                   @ map (reindex_row (map fst h) (columns b)) (rows b)\<rparr>)"

text \<open>\<open>combine_datasets\<close>: \<open>pd.concat\<close> raises \<open>ValueError\<close> on an empty list.\<close>

definition combine_datasets :: "table list \<Rightarrow> error + table" where
  "combine_datasets dataframes =
     (case dataframes of
        [] \<Rightarrow> Inl ValueError
      | d # ds \<Rightarrow>
          if list_ex (\<lambda>t. \<not> distinct (columns t)) dataframes then Inl Unmodelled
          else Inr (foldl concat2 d ds))"

datatype aggfun = Count | Mean | Minimum | Maximum

text \<open>One statistic of the numbers of a group; a group without numbers has the count 0
  and no mean, minimum or maximum.\<close>

definition aggregate :: "aggfun \<Rightarrow> rat list \<Rightarrow> cell" where
  "aggregate f vs =
     (case f of
        Count \<Rightarrow> Num (of_nat (length vs))
      | Mean \<Rightarrow> (if vs = [] then Null else Num (sum_list vs / of_nat (length vs)))
      | Minimum \<Rightarrow> (case vs of [] \<Rightarrow> Null | v # ws \<Rightarrow> Num (foldl min v ws))
      | Maximum \<Rightarrow> (case vs of [] \<Rightarrow> Null | v # ws \<Rightarrow> Num (foldl max v ws)))"

definition numbers_of :: "cell list \<Rightarrow> rat list" where
  "numbers_of cs = concat (map (\<lambda>c. case c of Num q \<Rightarrow> [q] | _ \<Rightarrow> []) cs)"

text \<open>The dictionary \<open>agg_dict\<close> of the source.\<close>

definition agg_dict :: "table \<Rightarrow> (string \<times> aggfun list) list" where
  "agg_dict df =
     (if ''price'' \<in> set (columns df) then [(''price'', [Count, Mean, Minimum, Maximum])] else [])
       @ (if ''discount_percentage'' \<in> set (columns df)
          then [(''discount_percentage'', [Mean, Minimum, Maximum])] else [])"

text \<open>The keys of \<open>groupby('category')\<close> and of \<open>value_counts()\<close>: the values of the
  column, each once, the missing value left out. They stand in the order of their first
  rows; the order pandas writes them in is not modelled.\<close>

definition group_keys :: "cell list \<Rightarrow> cell list" where
  "group_keys cs = keep_first [] (filter (\<lambda>c. c \<noteq> Null) cs)"

text \<open>The statistics of one aggregated column over the rows of a group. Aggregating a
  column of dtype object is not modelled.\<close>

definition agg_column :: "table \<Rightarrow> cell list list \<Rightarrow> string \<times> aggfun list \<Rightarrow> error + cell list" where
  "agg_column df grp spec =
     (case (col_index (fst spec) (columns df), dtype_of (fst spec) df) of
        (Some i, Some Numeric) \<Rightarrow>
          Inr (map (\<lambda>f. aggregate f (numbers_of (map (cell_at i) grp))) (snd spec))
      | (Some i, Some Object) \<Rightarrow> Inl Unmodelled
      | _ \<Rightarrow> Inl KeyError)"

text \<open>A summary is the rows written to \<open>summary_statistics.csv\<close>: a category and its
  statistics.\<close>

type_synonym summary = "(cell \<times> cell list) list"

definition summary_row :: "table \<Rightarrow> nat \<Rightarrow> cell \<Rightarrow> error + cell \<times> cell list" where
  "summary_row df c key =
     (let grp = filter (\<lambda>r. cell_at c r = key) (rows df)
      in if agg_dict df = [] then Inr (key, [Num (of_nat (length grp))])
         else (case map_err (agg_column df grp) (agg_dict df) of
                 Inl e \<Rightarrow> Inl e
               | Inr stats \<Rightarrow> Inr (key, concat stats)))"

text \<open>\<open>create_summary_statistics\<close>: both branches read the column \<open>category\<close> and raise
  \<open>KeyError\<close> without it.\<close>

definition create_summary_statistics :: "table \<Rightarrow> error + summary" where
  "create_summary_statistics df =
     (if \<not> distinct (columns df) then Inl Unmodelled
      else (case col_index ''category'' (columns df) of
              None \<Rightarrow> Inl KeyError
            | Some c \<Rightarrow>
                map_err (summary_row df c) (group_keys (map (cell_at c) (rows df)))))"

section \<open>Evaluation on concrete inputs\<close>

lemmas string_defs =
  naira_def upper_chars_def lower_chars_def digit_chars_def is_upper_def is_lower_def
  is_digit_def is_alpha_def is_word_def is_space_def lower_char_def upper_char_def
  py_lower_def replace_char_def remove_char_def py_strip_def py_title_def

lemmas table_defs =
  columns_def dtype_of_def cell_at_def column_cells_def rename_column_def
  assign_column_def str_accessor_ok_def str_map_def str_accessor_def

lemmas price_defs =
  standardize_name_def standardize_column_names_def digit_val_def digits_val_def
  extract_number_def
  float_of_text_def clean_price_cell_def clean_price_column_def clean_price_data_def

lemmas attribute_defs =
  size_tokens_def boundary_def match_token_def match_digits_def extract_size_cell_def
  add_category_def clean_names_def fill_from_def extract_size_def extract_brand_def
  extract_attributes_def

lemmas missing_defs =
  fillna_row_def fillna_def drop_duplicates_def handle_missing_and_duplicates_def

lemmas discount_defs =
  old_price_pattern_def extract_old_price_cell_def to_numeric_cell_def
  round_half_even_def round2_def round2_cell_def old_price_valid_def discount_value_def
  set_discount_def discount_body_def feature_engineering_def

lemmas summary_defs =
  concat_header_def reindex_row_def concat2_def combine_datasets_def aggregate_def
  numbers_of_def agg_dict_def group_keys_def agg_column_def summary_row_def
  create_summary_statistics_def


section \<open>Splitting strings\<close>

lemma py_split_nonempty: "py_split sep s \<noteq> []"
  by (induction s) (auto split: list.splits)

lemma hd_py_split: "hd (py_split sep s) = takeWhile (\<lambda>c. c \<noteq> sep) s"
  by (induction s) (auto split: list.splits simp: py_split_nonempty)

lemma py_split_no_sep: "sep \<notin> set s \<Longrightarrow> py_split sep s = [s]"
  by (induction s) auto

lemma py_split_two: "\<exists>w w' ws. py_split sep (x @ sep # b) = w # w' # ws"
proof (induction x)
  case Nil
  then show ?case by (cases "py_split sep b") (auto simp: py_split_nonempty)
next
  case (Cons c x)
  then show ?case by auto
qed

lemma last_py_split_append: "last (py_split sep (x @ sep # b)) = last (py_split sep b)"
proof (induction x)
  case Nil
  then show ?case by (simp add: py_split_nonempty)
next
  case (Cons c x)
  obtain w w' ws where "py_split sep (x @ sep # b) = w # w' # ws"
    using py_split_two by blast
  with Cons show ?case by auto
qed

lemma last_py_split: "last (py_split sep s) = after_last sep s"
proof (cases "sep \<in> set s")
  case True
  then obtain x b where s: "s = x @ sep # b" and nb: "sep \<notin> set b"
    by (meson split_list_last)
  have "last (py_split sep s) = b"
    by (simp add: s last_py_split_append py_split_no_sep nb)
  moreover have "takeWhile (\<lambda>c. c \<noteq> sep) (rev s) = rev b"
    using nb by (auto simp add: s takeWhile_tail)
  ultimately show ?thesis by (simp add: after_last_def)
next
  case False
  have tw: "takeWhile (\<lambda>c. c \<noteq> sep) (rev s) = rev s"
    by (rule takeWhile_eq_all_conv [THEN iffD2]) (use False in auto)
  show ?thesis
    unfolding after_last_def tw using False by (simp add: py_split_no_sep)
qed


section \<open>The category label\<close>

text \<open>
  C9, as stated: the label is what follows the last underscore of the base name and
  precedes the extension. It fails for a file name with a dot between the last
  underscore and the extension: the code cuts at the first dot.
\<close>

theorem category_name_not_before_extension:
  "category_name ''Jumia Data/raw/jumia_men.v2.csv'' = ''men''
   \<and> spec_category_name ''Jumia Data/raw/jumia_men.v2.csv'' = ''men.v2''"
  by code_simp

text \<open>
  C9, amended: for every file path the label is the part of the base name after its last
  underscore (the whole base name when it has none), cut before the first dot of that
  part; the base name is what follows the last slash.
\<close>

theorem category_name_first_dot:
  "category_name file_path
     = before_first CHR ''.'' (after_last CHR ''_'' (after_last CHR ''/'' file_path))"
  by (simp add: category_name_def basename_def hd_py_split last_py_split before_first_def)

text \<open>With one dot after the last underscore the label is the text between them, as the
  specification says.\<close>

lemma category_name_single_dot:
  assumes "CHR ''/'' \<notin> set (pre @ cat @ ext)" and "CHR ''_'' \<notin> set (cat @ ext)"
    and "CHR ''.'' \<notin> set cat"
  shows "category_name (dir @ ''/'' @ pre @ ''_'' @ cat @ ''.'' @ ext) = cat"
proof -
  let ?base = "pre @ ''_'' @ cat @ ''.'' @ ext"
  have "basename (dir @ ''/'' @ ?base) = ?base"
    using assms(1) last_py_split_append [of "CHR ''/''" dir ?base]
    by (simp add: basename_def py_split_no_sep)
  moreover have "last (py_split CHR ''_'' ?base) = cat @ ''.'' @ ext"
    using assms(2) last_py_split_append [of "CHR ''_''" pre "cat @ ''.'' @ ext"]
    by (simp add: py_split_no_sep)
  moreover have "hd (py_split CHR ''.'' (cat @ ''.'' @ ext)) = cat"
    using assms(3) by (auto simp add: hd_py_split takeWhile_tail)
  ultimately show ?thesis by (simp add: category_name_def)
qed


section \<open>Column normalizer\<close>







section \<open>Size extraction on the names of the specification\<close>

text \<open>
  C3: a table whose column \<open>product_name\<close> holds \<open>Nike Air Max XL\<close> and
  \<open>Classic Shirt 42\<close>. The extractor puts the names in title case before it looks for
  a size, so the first name becomes \<open>Nike Air Max Xl\<close>, in which the pattern finds no
  size: \<open>extracted_size\<close> is missing there, not \<open>XL\<close>. The second name keeps its
  \<open>42\<close>.
\<close>

theorem extract_attributes_product_name_XL:
  "extract_attributes
     \<lparr>header = [(''product_name'', Object)],
      rows = [[Str ''Nike Air Max XL''], [Str ''Classic Shirt 42'']]\<rparr> ''men''
   = Inr \<lparr>header = [(''name'', Object), (''category'', Object),
                     (''extracted_size'', Object), (''brand'', Object)],
           rows = [[Str ''Nike Air Max Xl'', Str ''men'', Null, Str ''Nike''],
                   [Str ''Classic Shirt 42'', Str ''men'', Str ''42'', Str ''Classic'']]\<rparr>"
  by (simp add: attribute_defs table_defs string_defs)

text \<open>On a column that is already labelled \<open>name\<close> nothing is put in title case, and the
  size \<open>XL\<close> is found.\<close>

lemma extract_attributes_name_XL:
  "extract_attributes
     \<lparr>header = [(''name'', Object)],
      rows = [[Str ''Nike Air Max XL''], [Str ''Classic Shirt 42'']]\<rparr> ''men''
   = Inr \<lparr>header = [(''name'', Object), (''category'', Object),
                     (''extracted_size'', Object), (''brand'', Object)],
           rows = [[Str ''Nike Air Max XL'', Str ''men'', Str ''XL'', Str ''Nike''],
                   [Str ''Classic Shirt 42'', Str ''men'', Str ''42'', Str ''Classic'']]\<rparr>"
  by (simp add: attribute_defs table_defs string_defs)


section \<open>The discount on the prices of the specification\<close>

text \<open>
  C1: a file with the price \<open>1,500\<close> and the price information \<open>old price 2,000\<close>, both
  with the currency sign. The price cleaner takes \<open>price_info\<close> for a price column,
  its label containing \<open>price\<close>, and makes it the number 2000; the discount step then
  fails on \<open>.str\<close>, catches the exception, and the processed table has no column
  \<open>discount_percentage\<close>.
\<close>

theorem process_file_no_discount:
  "process_file ''Jumia Data/raw/jumia_men.csv''
     \<lparr>header = [(''Price'', Object), (''Price Info'', Object)],
      rows = [[Str (naira @ ''1,500''), Str (''old price '' @ naira @ ''2,000'')]]\<rparr>
   = Inr \<lparr>header = [(''price'', Numeric), (''price_info'', Numeric), (''category'', Object)],
           rows = [[Num 1500, Num 2000, Str ''men'']]\<rparr>"
proof -
  have c: "category_name ''Jumia Data/raw/jumia_men.csv'' = ''men''"
    by code_simp
  have s: "standardize_column_names
     \<lparr>header = [(''Price'', Object), (''Price Info'', Object)],
      rows = [[Str (naira @ ''1,500''), Str (''old price '' @ naira @ ''2,000'')]]\<rparr>
     = \<lparr>header = [(''price'', Object), (''price_info'', Object)],
      rows = [[Str (naira @ ''1,500''), Str (''old price '' @ naira @ ''2,000'')]]\<rparr>"
    by (simp add: standardize_column_names_def standardize_name_def string_defs)
  have p: "clean_price_data
     \<lparr>header = [(''price'', Object), (''price_info'', Object)],
      rows = [[Str (naira @ ''1,500''), Str (''old price '' @ naira @ ''2,000'')]]\<rparr>
     = Inr \<lparr>header = [(''price'', Numeric), (''price_info'', Numeric)],
             rows = [[Num 1500, Num 2000]]\<rparr>"
    by (simp add: price_defs table_defs string_defs)
  have a: "extract_attributes
     \<lparr>header = [(''price'', Numeric), (''price_info'', Numeric)],
      rows = [[Num 1500, Num 2000]]\<rparr> ''men''
     = Inr \<lparr>header = [(''price'', Numeric), (''price_info'', Numeric), (''category'', Object)],
             rows = [[Num 1500, Num 2000, Str ''men'']]\<rparr>"
    by (simp add: attribute_defs table_defs)
  have m: "handle_missing_and_duplicates
     \<lparr>header = [(''price'', Numeric), (''price_info'', Numeric), (''category'', Object)],
      rows = [[Num 1500, Num 2000, Str ''men'']]\<rparr>
     = \<lparr>header = [(''price'', Numeric), (''price_info'', Numeric), (''category'', Object)],
        rows = [[Num 1500, Num 2000, Str ''men'']]\<rparr>"
    by (simp add: missing_defs)
  have f: "feature_engineering
     \<lparr>header = [(''price'', Numeric), (''price_info'', Numeric), (''category'', Object)],
      rows = [[Num 1500, Num 2000, Str ''men'']]\<rparr>
     = Inr (\<lparr>header = [(''price'', Numeric), (''price_info'', Numeric), (''category'', Object)],
              rows = [[Num 1500, Num 2000, Str ''men'']]\<rparr>, Some AttributeError)"
    by (simp add: discount_defs table_defs)
  show ?thesis
    unfolding process_file_def c s p by (simp add: a m f)
qed

text \<open>The discount step alone, on a table whose \<open>price_info\<close> is still a text, derives the
  discount of the specification, 25.\<close>

lemma feature_engineering_discount_25:
  "feature_engineering
     \<lparr>header = [(''price'', Numeric), (''price_info'', Object)],
      rows = [[Num 1500, Str (''old price '' @ naira @ ''2,000'')]]\<rparr>
   = Inr (\<lparr>header = [(''price'', Numeric), (''price_info'', Object),
                      (''old_price'', Numeric), (''discount_percentage'', Numeric)],
            rows = [[Num 1500, Str (''old price '' @ naira @ ''2,000''), Num 2000, Num 25]]\<rparr>,
          None)"
  by (simp add: discount_defs table_defs string_defs digit_val_def digits_val_def Let_def)


section \<open>Price cleaner\<close>



section \<open>Missing values and duplicates\<close>

lemma keep_first_set: "set (keep_first seen xs) = set xs - set seen"
  by (induction xs arbitrary: seen) auto

lemma keep_first_distinct: "distinct (keep_first seen xs)"
  by (induction xs arbitrary: seen) (auto simp: keep_first_set)


lemma fillna_row_twice_no_null:
  "Null \<notin> set (fillna_row Object (Str u) h (fillna_row Numeric (Num z) h r))"
proof (induction h arbitrary: r)
  case Nil
  then show ?case by (simp add: fillna_row_def)
next
  case (Cons x h)
  show ?case
  proof (cases r)
    case Nil
    then show ?thesis by (simp add: fillna_row_def)
  next
    case (Cons c cs)
    obtain n d where x: "x = (n, d)" by (cases x)
    have "Null \<notin> set (fillna_row Object (Str u) h (fillna_row Numeric (Num z) h cs))"
      by (rule Cons.IH)
    then show ?thesis
      unfolding fillna_row_def Cons x by (cases d) auto
  qed
qed

lemma fillna_row_length: "length (fillna_row d v h r) = min (length h) (length r)"
  by (simp add: fillna_row_def)

text \<open>A row of the table as the handler fills it.\<close>

lemma rows_handle_missing:
  "rows (handle_missing_and_duplicates df)
     = keep_first []
         (map (\<lambda>r. fillna_row Object (Str ''Unknown'') (header df)
                     (fillna_row Numeric (Num 0) (header df) r)) (rows df))"
  by (simp add: handle_missing_and_duplicates_def drop_duplicates_def fillna_def comp_def)

lemma header_handle_missing: "header (handle_missing_and_duplicates df) = header df"
  by (simp add: handle_missing_and_duplicates_def drop_duplicates_def fillna_def)

lemma handle_missing_no_null:
  "r \<in> set (rows (handle_missing_and_duplicates df)) \<Longrightarrow> Null \<notin> set r"
  by (auto simp: rows_handle_missing keep_first_set fillna_row_twice_no_null)



section \<open>Columns by label\<close>

lemma col_index_None: "col_index n cs = None \<longleftrightarrow> n \<notin> set cs"
  by (induction cs) auto

lemma col_index_Some: "col_index n cs = Some i \<Longrightarrow> i < length cs \<and> cs ! i = n"
  by (induction cs arbitrary: i) (auto split: if_splits)

lemma col_index_mem: "n \<in> set cs \<Longrightarrow> \<exists>i. col_index n cs = Some i"
  using col_index_None [of n cs] by (cases "col_index n cs") auto

lemma col_index_distinct: "distinct cs \<Longrightarrow> i < length cs \<Longrightarrow> col_index (cs ! i) cs = Some i"
proof (induction cs arbitrary: i)
  case Nil
  then show ?case by simp
next
  case (Cons c cs)
  then show ?case by (cases i) auto
qed

lemma col_index_append_other: "n \<noteq> m \<Longrightarrow> col_index n (cs @ [m]) = col_index n cs"
  by (induction cs) auto

lemma col_index_append_new: "n \<notin> set cs \<Longrightarrow> col_index n (cs @ [n]) = Some (length cs)"
  by (induction cs) auto

lemma col_index_map:
  "(\<And>c. f c = n \<longleftrightarrow> c = n) \<Longrightarrow> col_index n (map f cs) = col_index n cs"
  by (induction cs) auto

lemma map_of_col_index:
  "map_of h n = map_option (\<lambda>i. snd (h ! i)) (col_index n (map fst h))"
proof (induction h)
  case Nil
  then show ?case by simp
next
  case (Cons x h)
  then show ?case by (cases x) (auto simp: option.map_comp comp_def)
qed

lemma dtype_of_index:
  "col_index n (columns df) = Some i \<Longrightarrow> dtype_of n df = Some (snd (header df ! i))"
  by (simp add: dtype_of_def map_of_col_index columns_def)

lemma dtype_of_None: "n \<notin> set (columns df) \<Longrightarrow> dtype_of n df = None"
  by (simp add: dtype_of_def map_of_col_index columns_def col_index_None [THEN iffD2])

lemma map_fst_update:
  "i < length h \<Longrightarrow> fst (h ! i) = m \<Longrightarrow> map fst (h[i := (m, d)]) = map fst h"
  by (simp add: map_update list_update_same_conv)

lemma cell_at_update_other: "k \<noteq> i \<Longrightarrow> cell_at k (r[i := x]) = cell_at k r"
  by (simp add: cell_at_def)

lemma cell_at_update_same: "i < length r \<Longrightarrow> cell_at i (r[i := x]) = x"
  by (simp add: cell_at_def)

lemma cell_at_append: "k < length r \<Longrightarrow> cell_at k (r @ [x]) = cell_at k r"
  by (simp add: cell_at_def nth_append)

lemma cell_at_append_new: "cell_at (length r) (r @ [x]) = x"
  by (simp add: cell_at_def)

lemma rectangular_row: "rectangular df \<Longrightarrow> r \<in> set (rows df) \<Longrightarrow> length r = length (header df)"
  by (simp add: rectangular_def list_all_iff)


section \<open>Assigning and renaming columns\<close>

lemma columns_assign_column:
  "columns (assign_column m d f df)
     = (if m \<in> set (columns df) then columns df else columns df @ [m])"
proof (cases "col_index m (columns df)")
  case None
  then show ?thesis
    using col_index_None [of m "columns df"] by (simp add: assign_column_def columns_def)
next
  case (Some i)
  then have "i < length (header df)" "fst (header df ! i) = m" "m \<in> set (columns df)"
    using col_index_Some [OF Some] col_index_None [of m "columns df"]
    by (auto simp: columns_def)
  with Some show ?thesis
    by (simp add: assign_column_def columns_def map_fst_update)
qed

lemma rectangular_assign_column:
  "rectangular df \<Longrightarrow> rectangular (assign_column m d f df)"
  by (cases "col_index m (columns df)")
    (auto simp: assign_column_def rectangular_def list_all_iff)

lemma header_assign_column_subset:
  "set (header (assign_column m d f df)) \<subseteq> insert (m, d) (set (header df))"
  by (cases "col_index m (columns df)")
    (auto simp: assign_column_def dest: set_update_subset_insert [THEN subsetD])


lemma col_index_assign_other:
  "n \<noteq> m \<Longrightarrow> col_index n (columns (assign_column m d f df)) = col_index n (columns df)"
  by (simp add: columns_assign_column col_index_append_other)

lemma dtype_assign_other:
  assumes "n \<noteq> m"
  shows "dtype_of n (assign_column m d f df) = dtype_of n df"
proof (cases "col_index m (columns df)")
  case None
  with assms show ?thesis
    by (simp add: assign_column_def dtype_of_def map_add_def split: option.splits)
next
  case (Some i)
  then have i: "i < length (header df)" "fst (header df ! i) = m"
    using col_index_Some [OF Some] by (auto simp: columns_def)
  have c: "col_index n (map fst ((header df)[i := (m, d)])) = col_index n (map fst (header df))"
    using i by (simp add: map_fst_update)
  show ?thesis
  proof (cases "col_index n (map fst (header df))")
    case None
    with c Some show ?thesis
      by (simp add: assign_column_def dtype_of_def map_of_col_index)
  next
    case (Some k)
    then have "k \<noteq> i"
      using col_index_Some [OF Some] i assms by auto
    with c Some \<open>col_index m (columns df) = Some i\<close> show ?thesis
      by (simp add: assign_column_def dtype_of_def map_of_col_index)
  qed
qed

lemma cells_assign_other:
  assumes "rectangular df" and "n \<noteq> m"
  shows "column_cells n (assign_column m d f df) = column_cells n df"
proof (cases "col_index n (columns df)")
  case None
  with assms show ?thesis
    by (simp add: column_cells_def col_index_assign_other)
next
  case (Some k)
  then have k: "k < length (header df)" "columns df ! k = n"
    using col_index_Some [OF Some] by (auto simp: columns_def)
  show ?thesis
  proof (cases "col_index m (columns df)")
    case None
    have "map (cell_at k) (map (\<lambda>r. r @ [f r]) (rows df)) = map (cell_at k) (rows df)"
      using assms(1) k by (auto simp: cell_at_append rectangular_row)
    with None Some assms(2) show ?thesis
      using col_index_assign_other [OF assms(2), of d f df]
      by (simp add: column_cells_def) (simp add: assign_column_def)
  next
    case (Some i)
    then have "k \<noteq> i"
      using col_index_Some [OF Some] k assms(2) by auto
    then have "map (cell_at k) (map (\<lambda>r. r[i := f r]) (rows df)) = map (cell_at k) (rows df)"
      by (simp add: cell_at_update_other)
    with Some \<open>col_index n (columns df) = Some k\<close> show ?thesis
      using col_index_assign_other [OF assms(2), of d f df]
      by (simp add: column_cells_def) (simp add: assign_column_def)
  qed
qed

lemma same_column_assign:
  "rectangular df \<Longrightarrow> n \<noteq> m \<Longrightarrow> same_column n df (assign_column m d f df)"
  by (simp add: same_column_def cells_assign_other dtype_assign_other)

lemma same_column_refl: "same_column n df df"
  by (simp add: same_column_def)

lemma same_column_trans:
  "same_column n a b \<Longrightarrow> same_column n b c \<Longrightarrow> same_column n a c"
  by (simp add: same_column_def)

lemma columns_rename_column:
  "columns (rename_column a b df) = map (\<lambda>n. if n = a then b else n) (columns df)"
  by (simp add: rename_column_def columns_def case_prod_unfold comp_def)

lemma rectangular_rename_column: "rectangular df \<Longrightarrow> rectangular (rename_column a b df)"
  by (simp add: rename_column_def rectangular_def)

lemma same_column_rename:
  assumes "n \<noteq> a" and "n \<noteq> b"
  shows "same_column n df (rename_column a b df)"
proof -
  have c: "col_index n (columns (rename_column a b df)) = col_index n (columns df)"
    unfolding columns_rename_column using assms by (intro col_index_map) auto
  have r: "rows (rename_column a b df) = rows df"
    by (simp add: rename_column_def)
  have "dtype_of n (rename_column a b df) = dtype_of n df"
  proof (cases "col_index n (columns df)")
    case None
    with c show ?thesis
      using col_index_None [of n "columns df"] col_index_None [of n "columns (rename_column a b df)"]
      by (simp add: dtype_of_None)
  next
    case (Some k)
    then have "k < length (header df)"
      using col_index_Some [OF Some] by (simp add: columns_def)
    then have "snd (header (rename_column a b df) ! k) = snd (header df ! k)"
      by (simp add: rename_column_def case_prod_unfold)
    with Some c show ?thesis
      using dtype_of_index [of n df k] dtype_of_index [of n "rename_column a b df" k]
      by simp
  qed
  with c r show ?thesis
    by (auto simp: same_column_def column_cells_def split: option.splits)
qed

lemma header_fill_from: "header (fill_from a b df) = header df"
  by (auto simp: fill_from_def split: option.splits)

lemma columns_fill_from: "columns (fill_from a b df) = columns df"
  by (simp add: columns_def header_fill_from)

lemma rectangular_fill_from: "rectangular df \<Longrightarrow> rectangular (fill_from a b df)"
  by (auto simp: fill_from_def rectangular_def list_all_iff split: option.splits)

lemma same_column_fill_from:
  assumes "n \<noteq> a"
  shows "same_column n df (fill_from a b df)"
proof -
  have "column_cells n (fill_from a b df) = column_cells n df"
  proof (cases "col_index n (columns df)")
    case None
    then show ?thesis by (simp add: column_cells_def columns_fill_from)
  next
    case (Some k)
    show ?thesis
    proof (cases "col_index a (columns df)")
      case None
      then show ?thesis by (simp add: fill_from_def)
    next
      case (Some i)
      then have "k \<noteq> i"
        using col_index_Some [OF Some] col_index_Some [OF \<open>col_index n (columns df) = Some k\<close>]
          assms by auto
      then show ?thesis
        using Some \<open>col_index n (columns df) = Some k\<close>
        by (cases "col_index b (columns df)")
          (auto simp: column_cells_def columns_def fill_from_def cell_at_update_other)
    qed
  qed
  then show ?thesis
    by (simp add: same_column_def dtype_of_def header_fill_from)
qed

section \<open>What the attribute extractor leaves alone\<close>

lemma columns_assign_mono:
  "n \<in> set (columns df) \<Longrightarrow> n \<in> set (columns (assign_column m d f df))"
  by (simp add: columns_assign_column)

lemma columns_assign_has: "m \<in> set (columns (assign_column m d f df))"
  by (simp add: columns_assign_column)

lemma add_category_frame:
  assumes "rectangular df"
  shows "rectangular (add_category c df)"
    and "n \<in> set (columns df) \<Longrightarrow> same_column n df (add_category c df)"
    and "n \<in> set (columns df) \<Longrightarrow> n \<in> set (columns (add_category c df))"
    and "''category'' \<in> set (columns (add_category c df))"
proof -
  show "rectangular (add_category c df)"
    using assms by (simp add: add_category_def rectangular_assign_column)
  show "same_column n df (add_category c df)" if "n \<in> set (columns df)"
  proof (cases "''category'' \<in> set (columns df)")
    case True
    then show ?thesis by (simp add: add_category_def same_column_refl)
  next
    case False
    with that have "n \<noteq> ''category''" by auto
    with False assms show ?thesis
      by (simp add: add_category_def same_column_assign)
  qed
  show "n \<in> set (columns (add_category c df))" if "n \<in> set (columns df)"
    using that by (simp add: add_category_def columns_assign_mono)
  show "''category'' \<in> set (columns (add_category c df))"
    by (simp add: add_category_def columns_assign_has)
qed

lemma clean_names_frame:
  assumes "clean_names df = Inr df'" and "rectangular df"
  shows "rectangular df'"
    and "n \<noteq> ''name'' \<Longrightarrow> n \<noteq> ''product_name'' \<Longrightarrow> same_column n df df'"
    and "n \<in> set (columns df) \<Longrightarrow> n \<noteq> ''product_name'' \<Longrightarrow> n \<in> set (columns df')"
proof -
  show "rectangular df'"
    using assms
    by (auto simp: clean_names_def Let_def rectangular_assign_column rectangular_rename_column
        split: if_splits sum.splits)
  show "same_column n df df'" if "n \<noteq> ''name''" "n \<noteq> ''product_name''"
  proof (cases "''product_name'' \<in> set (columns df)")
    case False
    with assms show ?thesis by (simp add: clean_names_def same_column_refl)
  next
    case True
    let ?df1 = "rename_column ''product_name'' ''name'' df"
    from True assms(1) obtain i where i: "str_accessor ''name'' ?df1 = Inr i"
      by (auto simp: clean_names_def Let_def split: if_splits sum.splits)
    let ?df2 = "assign_column ''name'' Object
                  (\<lambda>r. str_map (\<lambda>s. Str (py_strip s)) (cell_at i r)) ?df1"
    from True assms(1) i obtain j where j: "str_accessor ''name'' ?df2 = Inr j"
      and d: "df' = assign_column ''name'' Object
                      (\<lambda>r. str_map (\<lambda>s. Str (py_title s)) (cell_at j r)) ?df2"
      by (auto simp: clean_names_def Let_def split: if_splits sum.splits)
    have r1: "rectangular ?df1"
      using assms(2) by (rule rectangular_rename_column)
    have r2: "rectangular ?df2"
      using r1 by (rule rectangular_assign_column)
    have "same_column n df ?df1"
      using that by (simp add: same_column_rename)
    moreover have "same_column n ?df1 ?df2"
      using r1 that by (simp add: same_column_assign)
    moreover have "same_column n ?df2 df'"
      unfolding d using r2 that by (simp add: same_column_assign)
    ultimately show ?thesis
      by (blast intro: same_column_trans)
  qed
  show "n \<in> set (columns df')" if "n \<in> set (columns df)" "n \<noteq> ''product_name''"
    using assms(1) that
    by (auto simp: clean_names_def Let_def columns_assign_column columns_rename_column
        split: if_splits sum.splits)
qed

lemma extract_size_frame:
  assumes "extract_size df = Inr df'" and "rectangular df"
  shows "rectangular df'"
    and "n \<in> set (columns df) \<Longrightarrow> same_column n df df'"
    and "n \<in> set (columns df) \<Longrightarrow> n \<in> set (columns df')"
proof -
  show "rectangular df'"
    using assms
    by (auto simp: extract_size_def Let_def rectangular_assign_column rectangular_fill_from
        split: if_splits sum.splits)
  show "same_column n df df'" if "n \<in> set (columns df)"
  proof (cases "''name'' \<in> set (columns df) \<and> ''extracted_size'' \<notin> set (columns df)")
    case False
    with assms show ?thesis by (auto simp: extract_size_def same_column_refl)
  next
    case True
    with that have ne: "n \<noteq> ''extracted_size''" by auto
    from True assms(1) obtain i where i: "str_accessor ''name'' df = Inr i"
      by (auto simp: extract_size_def Let_def split: if_splits sum.splits)
    let ?df1 = "assign_column ''extracted_size'' Object
                  (\<lambda>r. extract_size_cell (cell_at i r)) df"
    have d: "df' = (if ''sizes'' \<in> set (columns ?df1)
                    then fill_from ''extracted_size'' ''sizes'' ?df1 else ?df1)"
      using True assms(1) i by (simp add: extract_size_def Let_def)
    have "same_column n df ?df1"
      using assms(2) ne by (simp add: same_column_assign)
    moreover have "same_column n ?df1 df'"
      unfolding d using ne by (simp add: same_column_fill_from same_column_refl)
    ultimately show ?thesis
      by (blast intro: same_column_trans)
  qed
  show "n \<in> set (columns df')" if "n \<in> set (columns df)"
    using assms(1) that
    by (auto simp: extract_size_def Let_def columns_assign_column columns_fill_from
        split: if_splits sum.splits)
qed

lemma extract_brand_frame:
  assumes "extract_brand df = Inr df'" and "rectangular df"
  shows "rectangular df'"
    and "n \<in> set (columns df) \<Longrightarrow> same_column n df df'"
    and "n \<in> set (columns df) \<Longrightarrow> n \<in> set (columns df')"
proof -
  show "rectangular df'"
    using assms
    by (auto simp: extract_brand_def rectangular_assign_column split: if_splits sum.splits)
  show "same_column n df df'" if "n \<in> set (columns df)"
  proof (cases "''name'' \<in> set (columns df) \<and> ''brand'' \<notin> set (columns df)")
    case False
    with assms show ?thesis by (auto simp: extract_brand_def same_column_refl)
  next
    case True
    with that have "n \<noteq> ''brand''" by auto
    with True assms show ?thesis
      by (auto simp: extract_brand_def same_column_assign split: sum.splits)
  qed
  show "n \<in> set (columns df')" if "n \<in> set (columns df)"
    using assms(1) that
    by (auto simp: extract_brand_def columns_assign_column split: if_splits sum.splits)
qed

lemma extract_attributes_steps:
  assumes "extract_attributes df c = Inr df'"
  obtains df1 df2 where "clean_names (add_category c df) = Inr df1"
    and "extract_size df1 = Inr df2" and "extract_brand df2 = Inr df'"
  using assms by (auto simp: extract_attributes_def split: sum.splits)

lemma rectangular_extract_attributes:
  assumes "extract_attributes df c = Inr df'" and "rectangular df"
  shows "rectangular df'"
proof -
  from assms(1) obtain df1 df2 where s: "clean_names (add_category c df) = Inr df1"
    "extract_size df1 = Inr df2" "extract_brand df2 = Inr df'"
    by (rule extract_attributes_steps)
  have "rectangular (add_category c df)"
    using assms(2) by (rule add_category_frame)
  then have "rectangular df1" using s(1) by (blast intro: clean_names_frame)
  then have "rectangular df2" using s(2) by (blast intro: extract_size_frame)
  then show ?thesis using s(3) by (blast intro: extract_brand_frame)
qed

text \<open>
  C10: when the extractor returns, a column \<open>category\<close>, \<open>extracted_size\<close> or \<open>brand\<close>
  that the table already had is still there with the cells and the dtype it had.
\<close>

theorem extract_attributes_keeps_existing:
  assumes "extract_attributes df c = Inr df'" and "wf_table df"
    and "n \<in> {''category'', ''extracted_size'', ''brand''}"
    and "n \<in> set (columns df)"
  shows "n \<in> set (columns df') \<and> column_cells n df' = column_cells n df
         \<and> dtype_of n df' = dtype_of n df"
proof -
  from assms(1) obtain df1 df2 where s: "clean_names (add_category c df) = Inr df1"
    "extract_size df1 = Inr df2" "extract_brand df2 = Inr df'"
    by (rule extract_attributes_steps)
  have r: "rectangular df" using assms(2) by (simp add: wf_table_def)
  have n: "n \<noteq> ''name''" "n \<noteq> ''product_name''" using assms(3) by auto
  let ?df0 = "add_category c df"
  have r0: "rectangular ?df0" using r by (rule add_category_frame)
  have r1: "rectangular df1" using s(1) r0 by (rule clean_names_frame)
  have r2: "rectangular df2" using s(2) r1 by (rule extract_size_frame)
  have m0: "n \<in> set (columns ?df0)" using r assms(4) by (rule add_category_frame)
  have m1: "n \<in> set (columns df1)" using s(1) r0 m0 n(2) by (rule clean_names_frame)
  have m2: "n \<in> set (columns df2)" using s(2) r1 m1 by (rule extract_size_frame)
  have m3: "n \<in> set (columns df')" using s(3) r2 m2 by (rule extract_brand_frame)
  have "same_column n df ?df0" using r assms(4) by (rule add_category_frame)
  moreover have "same_column n ?df0 df1" using s(1) r0 n by (rule clean_names_frame)
  moreover have "same_column n df1 df2" using s(2) r1 m1 by (rule extract_size_frame)
  moreover have "same_column n df2 df'" using s(3) r2 m2 by (rule extract_brand_frame)
  ultimately have "same_column n df df'"
    by (blast intro: same_column_trans)
  with m3 show ?thesis by (simp add: same_column_def)
qed

theorem extract_attributes_keeps_existing_witness:
  "wf_table \<lparr>header = [(''product_name'', Object), (''brand'', Object)],
             rows = [[Str ''  nike air max XL '', Str ''Acme'']]\<rparr>
   \<and> extract_attributes
        \<lparr>header = [(''product_name'', Object), (''brand'', Object)],
         rows = [[Str ''  nike air max XL '', Str ''Acme'']]\<rparr> ''men''
      = Inr \<lparr>header = [(''name'', Object), (''brand'', Object), (''category'', Object),
                        (''extracted_size'', Object)],
              rows = [[Str ''Nike Air Max Xl'', Str ''Acme'', Str ''men'', Null]]\<rparr>
   \<and> column_cells ''brand''
        \<lparr>header = [(''name'', Object), (''brand'', Object), (''category'', Object),
                   (''extracted_size'', Object)],
         rows = [[Str ''Nike Air Max Xl'', Str ''Acme'', Str ''men'', Null]]\<rparr>
      = column_cells ''brand''
          \<lparr>header = [(''product_name'', Object), (''brand'', Object)],
           rows = [[Str ''  nike air max XL '', Str ''Acme'']]\<rparr>"
proof -
  let ?df = "\<lparr>header = [(''product_name'', Object), (''brand'', Object)],
             rows = [[Str ''  nike air max XL '', Str ''Acme'']]\<rparr>"
  let ?df' = "\<lparr>header = [(''name'', Object), (''brand'', Object), (''category'', Object),
                   (''extracted_size'', Object)],
         rows = [[Str ''Nike Air Max Xl'', Str ''Acme'', Str ''men'', Null]]\<rparr>"
  have w: "wf_table ?df"
    by (simp add: wf_table_def rectangular_def columns_def)
  have e: "extract_attributes ?df ''men'' = Inr ?df'"
    by (simp add: attribute_defs table_defs string_defs)
  have m: "''brand'' \<in> set (columns ?df)"
    by (simp add: columns_def)
  show ?thesis
    using extract_attributes_keeps_existing [OF e w _ m] w e by simp
qed

section \<open>What the price cleaner does to each column\<close>

lemma map_err_Inr: "map_err f xs = Inr ys \<Longrightarrow> list_all2 (\<lambda>x y. f x = Inr y) xs ys"
proof (induction xs arbitrary: ys)
  case Nil
  then show ?case by auto
next
  case (Cons x xs)
  then show ?case
    by (auto split: sum.splits)
qed

lemma clean_price_cell_Null: "clean_price_cell Null = Inr Null"
  by (simp add: clean_price_cell_def)


lemma cell_at_update: "cell_at i (r[i := v]) = (if i < length r then v else Null)"
  by (simp add: cell_at_def)

lemma clean_cell_update:
  assumes "clean_price_cell (cell_at i r) = Inr v"
  shows "cell_at i (r[i := v]) = v"
proof (cases "i < length r")
  case True
  then show ?thesis by (simp add: cell_at_def)
next
  case False
  then have "cell_at i r = Null" by (simp add: cell_at_def)
  with assms have "v = Null" by (simp add: clean_price_cell_Null)
  with False show ?thesis by (simp add: cell_at_def)
qed

lemma same_shape_refl: "same_shape df df"
  by (simp add: same_shape_def list_all2_same)

lemma same_shape_trans:
  assumes "same_shape a b" and "same_shape b c"
  shows "same_shape a c"
proof -
  have ab: "list_all2 (\<lambda>r r'. length r' = length r) (rows a) (rows b)"
    and bc: "list_all2 (\<lambda>r r'. length r' = length r) (rows b) (rows c)"
    using assms by (simp_all add: same_shape_def)
  have "list_all2 (\<lambda>r r'. length r' = length r) (rows a) (rows c)"
    by (rule list_all2_trans [OF _ ab bc]) simp
  with assms show ?thesis by (simp add: same_shape_def)
qed

lemma column_unchanged_refl: "column_unchanged i df df"
  by (simp add: column_unchanged_def list_all2_same)

lemma column_unchanged_trans:
  assumes "column_unchanged i a b" and "column_unchanged i b c"
  shows "column_unchanged i a c"
proof -
  have ab: "list_all2 (\<lambda>r r'. cell_at i r' = cell_at i r) (rows a) (rows b)"
    and bc: "list_all2 (\<lambda>r r'. cell_at i r' = cell_at i r) (rows b) (rows c)"
    using assms by (simp_all add: column_unchanged_def)
  have "list_all2 (\<lambda>r r'. cell_at i r' = cell_at i r) (rows a) (rows c)"
    by (rule list_all2_trans [OF _ ab bc]) simp
  with assms show ?thesis by (simp add: column_unchanged_def)
qed

lemma column_cleaned_unchanged:
  assumes "column_cleaned i a b" and "column_unchanged i b c"
  shows "column_cleaned i a c"
proof -
  have ab: "list_all2 (\<lambda>r r'. clean_price_cell (cell_at i r) = Inr (cell_at i r')) (rows a) (rows b)"
    and bc: "list_all2 (\<lambda>r r'. cell_at i r' = cell_at i r) (rows b) (rows c)"
    using assms by (simp_all add: column_cleaned_def column_unchanged_def)
  have "list_all2 (\<lambda>r r'. clean_price_cell (cell_at i r) = Inr (cell_at i r')) (rows a) (rows c)"
    by (rule list_all2_trans [OF _ ab bc]) simp
  with assms show ?thesis by (simp add: column_cleaned_def column_unchanged_def)
qed

lemma column_unchanged_cleaned:
  assumes "column_unchanged i a b" and "column_cleaned i b c"
  shows "column_cleaned i a c"
proof -
  have ab: "list_all2 (\<lambda>r r'. cell_at i r' = cell_at i r) (rows a) (rows b)"
    and bc: "list_all2 (\<lambda>r r'. clean_price_cell (cell_at i r) = Inr (cell_at i r')) (rows b) (rows c)"
    using assms by (simp_all add: column_cleaned_def column_unchanged_def)
  have "list_all2 (\<lambda>r r'. clean_price_cell (cell_at i r) = Inr (cell_at i r')) (rows a) (rows c)"
    by (rule list_all2_trans [OF _ ab bc]) simp
  with assms show ?thesis by (simp add: column_cleaned_def column_unchanged_def)
qed

text \<open>One turn of the loop over the price columns.\<close>

lemma clean_price_column_step:
  assumes "clean_price_column col df = Inr df'" and "distinct (columns df)"
    and "i < length (header df)"
  shows "same_shape df df'"
    and "fst (header df ! i) = col \<Longrightarrow> snd (header df ! i) = Object \<Longrightarrow> column_cleaned i df df'"
    and "fst (header df ! i) \<noteq> col \<or> snd (header df ! i) \<noteq> Object \<Longrightarrow> column_unchanged i df df'"
proof -
  have ci: "col_index col (columns df) = Some i" if "fst (header df ! i) = col"
    using col_index_distinct [OF assms(2), of i] assms(3) that by (simp add: columns_def)
  show "same_shape df df'"
  proof (cases "col_index col (columns df)")
    case None
    with assms(1) show ?thesis by (simp add: clean_price_column_def same_shape_refl)
  next
    case (Some k)
    then have k: "k < length (header df)" "fst (header df ! k) = col"
      using col_index_Some [OF Some] by (auto simp: columns_def)
    show ?thesis
    proof (cases "dtype_of col df = Some Numeric")
      case True
      with Some assms(1) show ?thesis by (simp add: clean_price_column_def same_shape_refl)
    next
      case False
      with Some assms(1) obtain rs where
        m: "map_err (\<lambda>r. case clean_price_cell (cell_at k r) of
                               Inl e \<Rightarrow> Inl e | Inr v \<Rightarrow> Inr (r[k := v])) (rows df) = Inr rs"
        and d: "df' = \<lparr>header = (header df)[k := (col, Numeric)], rows = rs\<rparr>"
        by (auto simp: clean_price_column_def split: sum.splits)
      note rs = map_err_Inr [OF m]
      have "list_all2 (\<lambda>r r'. length r' = length r) (rows df) rs"
        using rs by (rule list_all2_mono) (auto split: sum.splits)
      moreover have "length rs = length (rows df)"
        using rs by (simp add: list_all2_lengthD)
      ultimately show ?thesis
        using k by (simp add: same_shape_def d columns_def map_fst_update)
    qed
  qed
  show "column_cleaned i df df'"
    if "fst (header df ! i) = col" "snd (header df ! i) = Object"
  proof -
    have c: "col_index col (columns df) = Some i" using that(1) by (rule ci)
    have "dtype_of col df = Some Object"
      using dtype_of_index [OF c] that(2) by simp
    with c assms(1) obtain rs where
      m: "map_err (\<lambda>r. case clean_price_cell (cell_at i r) of
                             Inl e \<Rightarrow> Inl e | Inr v \<Rightarrow> Inr (r[i := v])) (rows df) = Inr rs"
      and d: "df' = \<lparr>header = (header df)[i := (col, Numeric)], rows = rs\<rparr>"
      by (auto simp: clean_price_column_def split: sum.splits)
    note rs = map_err_Inr [OF m]
    have "list_all2 (\<lambda>r r'. clean_price_cell (cell_at i r) = Inr (cell_at i r')) (rows df) rs"
      using rs by (rule list_all2_mono) (auto split: sum.splits simp: clean_cell_update)
    then show ?thesis
      using assms(3) by (simp add: column_cleaned_def d)
  qed
  show "column_unchanged i df df'"
    if "fst (header df ! i) \<noteq> col \<or> snd (header df ! i) \<noteq> Object"
  proof (cases "col_index col (columns df)")
    case None
    with assms(1) show ?thesis by (simp add: clean_price_column_def column_unchanged_refl)
  next
    case (Some k)
    then have k: "k < length (header df)" "fst (header df ! k) = col"
      using col_index_Some [OF Some] by (auto simp: columns_def)
    show ?thesis
    proof (cases "dtype_of col df = Some Numeric")
      case True
      with Some assms(1) show ?thesis
        by (simp add: clean_price_column_def column_unchanged_refl)
    next
      case False
      have "snd (header df ! k) = Object"
        using False dtype_of_index [OF Some] by (cases "snd (header df ! k)") auto
      with that k have ki: "k \<noteq> i" by auto
      from False Some assms(1) obtain rs where
        m: "map_err (\<lambda>r. case clean_price_cell (cell_at k r) of
                               Inl e \<Rightarrow> Inl e | Inr v \<Rightarrow> Inr (r[k := v])) (rows df) = Inr rs"
        and d: "df' = \<lparr>header = (header df)[k := (col, Numeric)], rows = rs\<rparr>"
        by (auto simp: clean_price_column_def split: sum.splits)
      note rs = map_err_Inr [OF m]
      have "list_all2 (\<lambda>r r'. cell_at i r' = cell_at i r) (rows df) rs"
        using rs ki
        by (elim list_all2_mono) (auto split: sum.splits simp: cell_at_update_other)
      then show ?thesis
        using ki by (simp add: column_unchanged_def d)
    qed
  qed
qed

text \<open>The whole loop, over the labels \<open>cols\<close>.\<close>

lemma clean_price_columns_loop:
  assumes "clean_price_columns cols df = Inr df'" and "distinct (columns df)"
  shows "same_shape df df'
    \<and> (\<forall>i < length (header df).
          if fst (header df ! i) \<in> set cols \<and> snd (header df ! i) = Object
          then column_cleaned i df df' else column_unchanged i df df')"
  using assms
proof (induction cols arbitrary: df)
  case Nil
  then show ?case by (simp add: same_shape_refl column_unchanged_refl)
next
  case (Cons col cols)
  from Cons.prems(1) obtain df1 where
    s1: "clean_price_column col df = Inr df1" and s2: "clean_price_columns cols df1 = Inr df'"
    by (auto split: sum.splits)
  have sh1: "same_shape df df1"
  proof (cases "header df")
    case Nil
    then have "col_index col (columns df) = None" by (simp add: columns_def)
    with s1 show ?thesis by (simp add: clean_price_column_def same_shape_refl)
  next
    case (Cons x xs)
    then have "0 < length (header df)" by simp
    with s1 Cons.prems(2) show ?thesis by (rule clean_price_column_step)
  qed
  then have c1: "columns df1 = columns df"
    by (simp add: same_shape_def)
  then have d1: "distinct (columns df1)" and l1: "length (header df1) = length (header df)"
    using Cons.prems(2) by (auto simp: columns_def dest: arg_cong [where f = length])
  from Cons.IH [OF s2 d1] have sh2: "same_shape df1 df'"
    and ih: "\<And>i. i < length (header df1) \<Longrightarrow>
          (if fst (header df1 ! i) \<in> set cols \<and> snd (header df1 ! i) = Object
           then column_cleaned i df1 df' else column_unchanged i df1 df')"
    by auto
  have each: "if fst (header df ! i) \<in> set (col # cols) \<and> snd (header df ! i) = Object
        then column_cleaned i df df' else column_unchanged i df df'"
    if i: "i < length (header df)" for i
  proof -
    have lab: "fst (header df1 ! i) = fst (header df ! i)"
      using c1 i l1 by (metis columns_def nth_map)
    note step = clean_price_column_step [OF s1 Cons.prems(2) i]
    note ih' = ih [of i, unfolded l1, OF i]
    show ?thesis
    proof (cases "fst (header df ! i) = col \<and> snd (header df ! i) = Object")
      case True
      then have cl: "column_cleaned i df df1" using step(2) by simp
      then have "snd (header df1 ! i) = Numeric" by (simp add: column_cleaned_def)
      with ih' have "column_unchanged i df1 df'" by simp
      with cl have "column_cleaned i df df'" by (rule column_cleaned_unchanged)
      with True show ?thesis by simp
    next
      case False
      then have un: "column_unchanged i df df1" using step(3) by auto
      then have dt: "snd (header df1 ! i) = snd (header df ! i)"
        by (simp add: column_unchanged_def)
      show ?thesis
      proof (cases "fst (header df ! i) \<in> set cols \<and> snd (header df ! i) = Object")
        case True
        with ih' lab dt have "column_cleaned i df1 df'" by simp
        with un have "column_cleaned i df df'" by (rule column_unchanged_cleaned)
        with True show ?thesis by simp
      next
        case f2: False
        with ih' lab dt have "column_unchanged i df1 df'" by simp
        with un have "column_unchanged i df df'" by (rule column_unchanged_trans)
        moreover have "\<not> (fst (header df ! i) \<in> set (col # cols) \<and> snd (header df ! i) = Object)"
          using False f2 by auto
        ultimately show ?thesis by auto
      qed
    qed
  qed
  have "same_shape df df'"
    using sh1 sh2 by (rule same_shape_trans)
  with each show ?case by simp
qed

section \<open>The price cleaner on a table\<close>

lemma clean_price_data_steps:
  assumes "clean_price_data df = Inr df'"
  obtains df1 where
    "df1 = (if ''product_price'' \<in> set (columns df)
            then rename_column ''product_price'' ''price'' df else df)"
    and "distinct (columns df1)"
    and "clean_price_columns (filter (\<lambda>col. contains ''price'' (py_lower col)) (columns df1)) df1
           = Inr df'"
  using assms by (auto simp: clean_price_data_def Let_def split: if_splits)





text \<open>After the cleaner every column whose label contains \<open>price\<close> is numeric, and a
  rectangular table is still rectangular.\<close>

lemma clean_price_data_prices_numeric:
  assumes "clean_price_data df = Inr df'"
  shows "prices_numeric df'"
proof -
  from assms obtain df1 where
    dist: "distinct (columns df1)"
    and loop: "clean_price_columns
                 (filter (\<lambda>col. contains ''price'' (py_lower col)) (columns df1)) df1 = Inr df'"
    by (rule clean_price_data_steps)
  note inv = clean_price_columns_loop [OF loop dist]
  then have cols: "columns df' = columns df1"
    by (simp add: same_shape_def)
  then have len: "length (header df') = length (header df1)"
    by (auto simp: columns_def dest: arg_cong [where f = length])
  have "d = Numeric" if m: "(n, d) \<in> set (header df')" and p: "contains ''price'' (py_lower n)"
    for n d
  proof -
    from m obtain i where i: "i < length (header df')" "header df' ! i = (n, d)"
      by (auto simp: in_set_conv_nth)
    have lab: "fst (header df1 ! i) = n"
      using cols i len by (metis columns_def fst_conv nth_map)
    have i1: "i < length (header df1)" using i len by simp
    then have mem: "fst (header df1 ! i)
        \<in> set (filter (\<lambda>col. contains ''price'' (py_lower col)) (columns df1))"
      using lab p by (auto simp: columns_def)
    show ?thesis
    proof (cases "snd (header df1 ! i)")
      case Object
      with inv i1 mem have "column_cleaned i df1 df'" by auto
      with i show ?thesis by (simp add: column_cleaned_def)
    next
      case Numeric
      with inv i1 have "column_unchanged i df1 df'" by auto
      with i Numeric show ?thesis by (simp add: column_unchanged_def)
    qed
  qed
  then show ?thesis
    by (auto simp: prices_numeric_def list_all_iff)
qed

lemma same_shape_rectangular:
  assumes "same_shape df df'" and "rectangular df"
  shows "rectangular df'"
proof -
  have len: "length (header df') = length (header df)"
    using assms(1) by (auto simp: same_shape_def columns_def dest: arg_cong [where f = length])
  have "length r' = length (header df')" if "r' \<in> set (rows df')" for r'
  proof -
    from that obtain k where k: "k < length (rows df')" "rows df' ! k = r'"
      by (auto simp: in_set_conv_nth)
    have l2: "list_all2 (\<lambda>r r'. length r' = length r) (rows df) (rows df')"
      and lr: "length (rows df') = length (rows df)"
      using assms(1) by (simp_all add: same_shape_def)
    have kk: "k < length (rows df)" using k(1) lr by simp
    have "length (rows df' ! k) = length (rows df ! k)"
      using list_all2_nthD [OF l2 kk] .
    moreover have "length (rows df ! k) = length (header df)"
      using assms(2) kk by (simp add: rectangular_def list_all_length)
    ultimately show ?thesis using k(2) len by simp
  qed
  then show ?thesis by (simp add: rectangular_def list_all_iff)
qed

lemma clean_price_data_rectangular:
  assumes "clean_price_data df = Inr df'" and "rectangular df"
  shows "rectangular df'"
proof -
  from assms(1) obtain df1 where
    df1: "df1 = (if ''product_price'' \<in> set (columns df)
                 then rename_column ''product_price'' ''price'' df else df)"
    and dist: "distinct (columns df1)"
    and loop: "clean_price_columns
                 (filter (\<lambda>col. contains ''price'' (py_lower col)) (columns df1)) df1 = Inr df'"
    by (rule clean_price_data_steps)
  have "rectangular df1"
    using assms(2) df1 by (simp add: rectangular_rename_column)
  moreover have "same_shape df1 df'"
    using clean_price_columns_loop [OF loop dist] by simp
  ultimately show ?thesis by (rule same_shape_rectangular [rotated])
qed

section \<open>Price columns stay numeric through the pipeline\<close>

lemma not_price_labels:
  "\<not> contains ''price'' (py_lower ''category'')"
  "\<not> contains ''price'' (py_lower ''name'')"
  "\<not> contains ''price'' (py_lower ''extracted_size'')"
  "\<not> contains ''price'' (py_lower ''brand'')"
  by (simp_all add: string_defs)

lemma contains_price_price_info: "contains ''price'' (py_lower ''price_info'')"
  by (simp add: string_defs)

lemma prices_numeric_assign:
  assumes "prices_numeric df" and "\<not> contains ''price'' (py_lower m)"
  shows "prices_numeric (assign_column m d f df)"
proof -
  have "d' = Numeric"
    if "(n, d') \<in> set (header (assign_column m d f df))" "contains ''price'' (py_lower n)"
    for n d'
  proof -
    from that(1) have "(n, d') = (m, d) \<or> (n, d') \<in> set (header df)"
      using header_assign_column_subset [of m d f df] by auto
    with that(2) assms show ?thesis
      by (auto simp: prices_numeric_def list_all_iff)
  qed
  then show ?thesis by (auto simp: prices_numeric_def list_all_iff)
qed

lemma prices_numeric_rename:
  assumes "prices_numeric df" and "\<not> contains ''price'' (py_lower b)"
  shows "prices_numeric (rename_column a b df)"
  using assms
  by (fastforce simp: prices_numeric_def list_all_iff rename_column_def split: if_splits)

lemma prices_numeric_fill_from: "prices_numeric df \<Longrightarrow> prices_numeric (fill_from a b df)"
  by (simp add: prices_numeric_def header_fill_from)

lemma prices_numeric_extract_attributes:
  assumes "extract_attributes df c = Inr df'" and "prices_numeric df"
  shows "prices_numeric df'"
proof -
  from assms(1) obtain df1 df2 where s: "clean_names (add_category c df) = Inr df1"
    "extract_size df1 = Inr df2" "extract_brand df2 = Inr df'"
    by (rule extract_attributes_steps)
  have p0: "prices_numeric (add_category c df)"
    using assms(2) by (simp add: add_category_def prices_numeric_assign not_price_labels)
  have p1: "prices_numeric df1"
    using s(1) p0
    by (auto simp: clean_names_def Let_def prices_numeric_assign prices_numeric_rename
        not_price_labels split: if_splits sum.splits)
  have p2: "prices_numeric df2"
    using s(2) p1
    by (auto simp: extract_size_def Let_def prices_numeric_assign prices_numeric_fill_from
        not_price_labels split: if_splits sum.splits)
  show ?thesis
    using s(3) p2
    by (auto simp: extract_brand_def prices_numeric_assign not_price_labels
        split: if_splits sum.splits)
qed

lemma prices_numeric_handle_missing:
  "prices_numeric df \<Longrightarrow> prices_numeric (handle_missing_and_duplicates df)"
  by (simp add: prices_numeric_def header_handle_missing)

text \<open>On such a table the discount step changes nothing: \<open>.str\<close> on the numeric column
  \<open>price_info\<close> raises \<open>AttributeError\<close> before any assignment.\<close>

lemma str_accessor_numeric:
  assumes "prices_numeric df" and "n \<in> set (columns df)" and "contains ''price'' (py_lower n)"
  shows "str_accessor n df = Inl AttributeError"
proof -
  from assms(2) obtain i where i: "col_index n (columns df) = Some i"
    using col_index_mem by blast
  have "(n, snd (header df ! i)) \<in> set (header df)"
    using col_index_Some [OF i] by (auto simp: columns_def in_set_conv_nth intro!: exI [of _ i])
  with assms(1,3) have "snd (header df ! i) = Numeric"
    by (auto simp: prices_numeric_def list_all_iff)
  then show ?thesis
    using i dtype_of_index [OF i] by (simp add: str_accessor_def str_accessor_ok_def)
qed

lemma feature_engineering_prices_numeric:
  assumes "feature_engineering df = Inr (df', caught)" and "prices_numeric df"
  shows "df' = df"
proof (cases "''price_info'' \<in> set (columns df) \<and> ''price'' \<in> set (columns df)")
  case False
  with assms(1) show ?thesis by (auto simp: feature_engineering_def)
next
  case True
  then have "str_accessor ''price_info'' df = Inl AttributeError"
    using assms(2) contains_price_price_info by (simp add: str_accessor_numeric)
  then have "discount_body df = (df, Some AttributeError)"
    by (simp add: discount_body_def)
  with True assms(1) show ?thesis
    by (auto simp: feature_engineering_def split: if_splits)
qed

lemma rectangular_standardize:
  "rectangular df \<Longrightarrow> rectangular (standardize_column_names df)"
  by (simp add: rectangular_def standardize_column_names_def)

lemma process_file_steps:
  assumes "process_file file_path raw = Inr df'"
  obtains df1 df2 caught where
    "clean_price_data (standardize_column_names raw) = Inr df1"
    and "extract_attributes df1 (category_name file_path) = Inr df2"
    and "feature_engineering (handle_missing_and_duplicates df2) = Inr (df', caught)"
  using assms by (auto simp: process_file_def split: sum.splits prod.splits)

lemma process_file_result:
  assumes "process_file file_path raw = Inr df'"
  obtains df1 df2 where
    "clean_price_data (standardize_column_names raw) = Inr df1"
    and "extract_attributes df1 (category_name file_path) = Inr df2"
    and "df' = handle_missing_and_duplicates df2"
proof -
  from assms obtain df1 df2 caught where s:
    "clean_price_data (standardize_column_names raw) = Inr df1"
    "extract_attributes df1 (category_name file_path) = Inr df2"
    "feature_engineering (handle_missing_and_duplicates df2) = Inr (df', caught)"
    by (rule process_file_steps)
  have "prices_numeric df1" using s(1) by (rule clean_price_data_prices_numeric)
  then have "prices_numeric df2" using s(2) by (blast intro: prices_numeric_extract_attributes)
  then have "prices_numeric (handle_missing_and_duplicates df2)"
    by (rule prices_numeric_handle_missing)
  with s(3) have "df' = handle_missing_and_duplicates df2"
    by (rule feature_engineering_prices_numeric)
  with s(1,2) show ?thesis by (rule that)
qed



section \<open>The discount step never raises\<close>








section \<open>Processed tables\<close>

lemma rectangular_handle_missing:
  assumes "rectangular df"
  shows "rectangular (handle_missing_and_duplicates df)"
proof -
  have "length r' = length (header df)"
    if "r' \<in> set (rows (handle_missing_and_duplicates df))" for r'
  proof -
    from that obtain r where r: "r \<in> set (rows df)"
      and r': "r' = fillna_row Object (Str ''Unknown'') (header df)
                      (fillna_row Numeric (Num 0) (header df) r)"
      by (auto simp: rows_handle_missing keep_first_set)
    have "length r = length (header df)"
      using assms r by (rule rectangular_row)
    then show ?thesis by (simp add: r' fillna_row_length)
  qed
  then show ?thesis
    by (simp add: rectangular_def list_all_iff header_handle_missing)
qed

lemma extract_attributes_has_category:
  assumes "extract_attributes df c = Inr df'" and "rectangular df"
  shows "''category'' \<in> set (columns df')"
proof -
  from assms(1) obtain df1 df2 where s: "clean_names (add_category c df) = Inr df1"
    "extract_size df1 = Inr df2" "extract_brand df2 = Inr df'"
    by (rule extract_attributes_steps)
  let ?df0 = "add_category c df"
  have r0: "rectangular ?df0" using assms(2) by (rule add_category_frame)
  have r1: "rectangular df1" using s(1) r0 by (rule clean_names_frame)
  have r2: "rectangular df2" using s(2) r1 by (rule extract_size_frame)
  have m0: "''category'' \<in> set (columns ?df0)" using assms(2) by (rule add_category_frame)
  have m1: "''category'' \<in> set (columns df1)"
    using s(1) r0 m0 by (rule clean_names_frame) simp
  have m2: "''category'' \<in> set (columns df2)" using s(2) r1 m1 by (rule extract_size_frame)
  show ?thesis using s(3) r2 m2 by (rule extract_brand_frame)
qed

text \<open>A processed table is rectangular, has a column \<open>category\<close>, and no cell of that
  column is missing.\<close>

lemma process_file_category:
  assumes "process_file file_path raw = Inr t" and "rectangular raw"
  obtains i where "col_index ''category'' (columns t) = Some i"
    and "\<And>r. r \<in> set (rows t) \<Longrightarrow> cell_at i r \<noteq> Null"
proof -
  from assms(1) obtain df1 df2 where s:
    "clean_price_data (standardize_column_names raw) = Inr df1"
    "extract_attributes df1 (category_name file_path) = Inr df2"
    "t = handle_missing_and_duplicates df2"
    by (rule process_file_result)
  have "rectangular (standardize_column_names raw)"
    using assms(2) by (rule rectangular_standardize)
  with s(1) have r1: "rectangular df1" by (rule clean_price_data_rectangular)
  with s(2) have r2: "rectangular df2" by (rule rectangular_extract_attributes)
  then have rt: "rectangular t" unfolding s(3) by (rule rectangular_handle_missing)
  have "''category'' \<in> set (columns df2)"
    using s(2) r1 by (rule extract_attributes_has_category)
  then have "''category'' \<in> set (columns t)"
    by (simp add: s(3) columns_def header_handle_missing)
  then obtain i where i: "col_index ''category'' (columns t) = Some i"
    using col_index_mem by blast
  have "cell_at i r \<noteq> Null" if "r \<in> set (rows t)" for r
  proof -
    have "length r = length (header t)" using rt that by (rule rectangular_row)
    then have "i < length r" using col_index_Some [OF i] by (simp add: columns_def)
    then have "cell_at i r \<in> set r" by (simp add: cell_at_def)
    moreover have "Null \<notin> set r"
      using that unfolding s(3) by (rule handle_missing_no_null)
    ultimately show ?thesis by auto
  qed
  with i show ?thesis by (rule that)
qed


section \<open>The combined table and its summary\<close>

lemma col_index_append_mem: "n \<in> set cs \<Longrightarrow> col_index n (cs @ ds) = col_index n cs"
  by (induction cs) auto

lemma columns_concat2:
  "columns (concat2 a b) = columns a @ filter (\<lambda>n. n \<notin> set (columns a)) (columns b)"
  by (simp add: concat2_def concat_header_def columns_def Let_def case_prod_unfold comp_def
      filter_map)

lemma rows_concat2:
  "rows (concat2 a b)
     = map (reindex_row (columns (concat2 a b)) (columns a)) (rows a)
       @ map (reindex_row (columns (concat2 a b)) (columns b)) (rows b)"
  by (simp add: concat2_def Let_def columns_def)

lemma cell_at_reindex_row:
  "col_index n target = Some k \<Longrightarrow>
     cell_at k (reindex_row target source r)
       = (case col_index n source of None \<Rightarrow> Null | Some i \<Rightarrow> cell_at i r)"
  using col_index_Some [of n target k] by (simp add: reindex_row_def cell_at_def)

lemma group_keys_distinct: "distinct (group_keys cs)"
  by (simp add: group_keys_def keep_first_distinct)

lemma group_keys_set: "set (group_keys cs) = set cs - {Null}"
  by (auto simp: group_keys_def keep_first_set)

lemma summary_row_key: "summary_row df c key = Inr row \<Longrightarrow> fst row = key"
  by (auto simp: summary_row_def Let_def split: if_splits sum.splits)

lemma list_all2_fst_eq: "list_all2 (\<lambda>k row. fst row = k) ks rs \<Longrightarrow> map fst rs = ks"
  by (induction ks rs rule: list_all2_induct) auto

lemma summary_keys:
  assumes "create_summary_statistics df = Inr s"
  obtains c where "col_index ''category'' (columns df) = Some c"
    and "map fst s = group_keys (map (cell_at c) (rows df))"
proof -
  from assms obtain c where c: "col_index ''category'' (columns df) = Some c"
    and m: "map_err (summary_row df c) (group_keys (map (cell_at c) (rows df))) = Inr s"
    by (auto simp: create_summary_statistics_def split: if_splits option.splits)
  have "list_all2 (\<lambda>k row. summary_row df c k = Inr row)
          (group_keys (map (cell_at c) (rows df))) s"
    using m by (rule map_err_Inr)
  then have "list_all2 (\<lambda>k row. fst row = k) (group_keys (map (cell_at c) (rows df))) s"
    by (rule list_all2_mono) (rule summary_row_key)
  then have "map fst s = group_keys (map (cell_at c) (rows df))"
    by (rule list_all2_fst_eq)
  with c show ?thesis by (rule that)
qed

text \<open>
  C8: the table combined from two processed tables has as many rows as the two
  together, and the summary made of it has one row for each value of its column
  \<open>category\<close>, and no other row.
\<close>

theorem combined_rows_and_summary_keys:
  assumes "process_file path1 raw1 = Inr t1" and "process_file path2 raw2 = Inr t2"
    and "wf_table raw1" and "wf_table raw2"
    and "combine_datasets [t1, t2] = Inr combined"
    and "create_summary_statistics combined = Inr s"
  shows "length (rows combined) = length (rows t1) + length (rows t2)
    \<and> distinct (map fst s)
    \<and> (\<exists>cats. column_cells ''category'' combined = Some cats
          \<and> set (map fst s) = set cats \<and> length s = card (set cats))"
proof -
  have c: "combined = concat2 t1 t2"
    using assms(5) by (auto simp: combine_datasets_def split: if_splits)
  have len: "length (rows combined) = length (rows t1) + length (rows t2)"
    by (simp add: c rows_concat2)
  from assms(1,3) obtain i1 where i1: "col_index ''category'' (columns t1) = Some i1"
    and n1: "\<And>r. r \<in> set (rows t1) \<Longrightarrow> cell_at i1 r \<noteq> Null"
    by (auto simp: wf_table_def elim: process_file_category)
  from assms(2,4) obtain i2 where i2: "col_index ''category'' (columns t2) = Some i2"
    and n2: "\<And>r. r \<in> set (rows t2) \<Longrightarrow> cell_at i2 r \<noteq> Null"
    by (auto simp: wf_table_def elim: process_file_category)
  from assms(6) obtain k where k: "col_index ''category'' (columns combined) = Some k"
    and keys: "map fst s = group_keys (map (cell_at k) (rows combined))"
    by (rule summary_keys)
  let ?cats = "map (cell_at k) (rows combined)"
  have cc: "column_cells ''category'' combined = Some ?cats"
    using k by (simp add: column_cells_def)
  have kc: "col_index ''category'' (columns (concat2 t1 t2)) = Some k"
    using k c by simp
  have "Null \<notin> set ?cats"
  proof
    assume "Null \<in> set ?cats"
    then obtain r' where r': "r' \<in> set (rows (concat2 t1 t2))" "cell_at k r' = Null"
      using c by auto
    from r'(1) consider
      r where "r \<in> set (rows t1)" "r' = reindex_row (columns (concat2 t1 t2)) (columns t1) r"
      | r where "r \<in> set (rows t2)" "r' = reindex_row (columns (concat2 t1 t2)) (columns t2) r"
      by (auto simp: rows_concat2)
    then show False
    proof cases
      case 1
      then have "cell_at k r' = cell_at i1 r"
        using cell_at_reindex_row [OF kc, of "columns t1" r] i1 by simp
      with r'(2) n1 [OF 1(1)] show False by simp
    next
      case 2
      then have "cell_at k r' = cell_at i2 r"
        using cell_at_reindex_row [OF kc, of "columns t2" r] i2 by simp
      with r'(2) n2 [OF 2(1)] show False by simp
    qed
  qed
  then have st: "set (map fst s) = set ?cats"
    by (simp add: keys group_keys_set)
  have d: "distinct (map fst s)"
    by (simp add: keys group_keys_distinct)
  have "length s = card (set ?cats)"
    using distinct_card [OF d] st by simp
  with len d cc st show ?thesis by blast
qed

theorem combined_rows_and_summary_keys_witness:
  "process_file ''Jumia Data/raw/jumia_men.csv''
     \<lparr>header = [(''Price'', Numeric)], rows = [[Num 1500], [Num 2500]]\<rparr>
     = Inr \<lparr>header = [(''price'', Numeric), (''category'', Object)],
             rows = [[Num 1500, Str ''men''], [Num 2500, Str ''men'']]\<rparr>
   \<and> process_file ''Jumia Data/raw/jumia_women.csv''
       \<lparr>header = [(''Price'', Numeric)], rows = [[Num 10]]\<rparr>
     = Inr \<lparr>header = [(''price'', Numeric), (''category'', Object)],
             rows = [[Num 10, Str ''women'']]\<rparr>
   \<and> combine_datasets
        [\<lparr>header = [(''price'', Numeric), (''category'', Object)],
          rows = [[Num 1500, Str ''men''], [Num 2500, Str ''men'']]\<rparr>,
         \<lparr>header = [(''price'', Numeric), (''category'', Object)],
          rows = [[Num 10, Str ''women'']]\<rparr>]
     = Inr \<lparr>header = [(''price'', Numeric), (''category'', Object)],
             rows = [[Num 1500, Str ''men''], [Num 2500, Str ''men''], [Num 10, Str ''women'']]\<rparr>
   \<and> create_summary_statistics
        \<lparr>header = [(''price'', Numeric), (''category'', Object)],
         rows = [[Num 1500, Str ''men''], [Num 2500, Str ''men''], [Num 10, Str ''women'']]\<rparr>
     = Inr [(Str ''men'', [Num 2, Num 2000, Num 1500, Num 2500]),
            (Str ''women'', [Num 1, Num 10, Num 10, Num 10])]
   \<and> length (rows \<lparr>header = [(''price'', Numeric), (''category'', Object)],
             rows = [[Num 1500, Str ''men''], [Num 2500, Str ''men''], [Num 10, Str ''women'']]\<rparr>)
       = 2 + 1
   \<and> distinct (map fst [(Str ''men'', [Num 2, Num 2000, Num 1500, Num 2500]),
                          (Str ''women'', [Num 1, Num 10, Num 10, Num (10::rat)])])"
proof -
  let ?raw1 = "\<lparr>header = [(''Price'', Numeric)], rows = [[Num 1500], [Num 2500]]\<rparr>"
  let ?raw2 = "\<lparr>header = [(''Price'', Numeric)], rows = [[Num 10]]\<rparr>"
  let ?c1 = "\<lparr>header = [(''price'', Numeric)], rows = [[Num 1500], [Num 2500]]\<rparr>"
  let ?c2 = "\<lparr>header = [(''price'', Numeric)], rows = [[Num 10]]\<rparr>"
  let ?t1 = "\<lparr>header = [(''price'', Numeric), (''category'', Object)],
             rows = [[Num 1500, Str ''men''], [Num 2500, Str ''men'']]\<rparr>"
  let ?t2 = "\<lparr>header = [(''price'', Numeric), (''category'', Object)],
             rows = [[Num 10, Str ''women'']]\<rparr>"
  let ?c = "\<lparr>header = [(''price'', Numeric), (''category'', Object)],
             rows = [[Num 1500, Str ''men''], [Num 2500, Str ''men''], [Num 10, Str ''women'']]\<rparr>"
  let ?s = "[(Str ''men'', [Num 2, Num 2000, Num 1500, Num 2500]),
            (Str ''women'', [Num 1, Num 10, Num 10, Num 10])]"
  have n1: "category_name ''Jumia Data/raw/jumia_men.csv'' = ''men''"
    by code_simp
  have n2: "category_name ''Jumia Data/raw/jumia_women.csv'' = ''women''"
    by code_simp
  have s1: "standardize_column_names ?raw1 = ?c1"
    by (simp add: standardize_column_names_def standardize_name_def string_defs)
  have s2: "standardize_column_names ?raw2 = ?c2"
    by (simp add: standardize_column_names_def standardize_name_def string_defs)
  have p1: "clean_price_data ?c1 = Inr ?c1"
    by (simp add: price_defs table_defs string_defs)
  have p2: "clean_price_data ?c2 = Inr ?c2"
    by (simp add: price_defs table_defs string_defs)
  have a1: "extract_attributes ?c1 ''men'' = Inr ?t1"
    by (simp add: attribute_defs table_defs)
  have a2: "extract_attributes ?c2 ''women'' = Inr ?t2"
    by (simp add: attribute_defs table_defs)
  have m1: "handle_missing_and_duplicates ?t1 = ?t1"
    by (simp add: missing_defs)
  have m2: "handle_missing_and_duplicates ?t2 = ?t2"
    by (simp add: missing_defs)
  have f1: "feature_engineering ?t1 = Inr (?t1, None)"
    by (simp add: discount_defs table_defs)
  have f2: "feature_engineering ?t2 = Inr (?t2, None)"
    by (simp add: discount_defs table_defs)
  have e1: "process_file ''Jumia Data/raw/jumia_men.csv'' ?raw1 = Inr ?t1"
    unfolding process_file_def n1 s1 p1 by (simp add: a1 m1 f1)
  have e2: "process_file ''Jumia Data/raw/jumia_women.csv'' ?raw2 = Inr ?t2"
    unfolding process_file_def n2 s2 p2 by (simp add: a2 m2 f2)
  have w1: "wf_table ?raw1" and w2: "wf_table ?raw2"
    by (simp_all add: wf_table_def rectangular_def columns_def)
  have c: "combine_datasets [?t1, ?t2] = Inr ?c"
    by (simp add: summary_defs table_defs)
  have s: "create_summary_statistics ?c = Inr ?s"
    by (simp add: summary_defs table_defs keep_first.simps)
  show ?thesis
    using combined_rows_and_summary_keys [OF e1 e2 w1 w2 c s] e1 e2 c s
    by simp
qed

end
